theory Spec2Isabelle
  imports Main "HOL-Library.AList" "HOL-Library.Multiset"
begin

section \<open>JavaScript objects and schemas\<close>

text \<open>
  A JavaScript object with string keys is an association list: \<open>map_of\<close> reads an own
  property, \<open>AList.update\<close> assigns one (an existing key keeps its place, a new key goes last,
  as in JavaScript), and the first binding of a key is the property when a list repeats a
  key. Numeric keys are strings, as in JavaScript: \<open>TEXT_NODE\<close> is the key \<open>''3''\<close>.
\<close>

definition hasOwnProperty :: "(string \<times> 'v) list \<Rightarrow> string \<Rightarrow> bool" where
  "hasOwnProperty obj k = (k \<in> set (map fst obj))"

text \<open>\<open>Object.keys\<close>: every key once. (The order of the keys reaches no result below: results
  are read with \<open>map_of\<close>.)\<close>

definition keys :: "(string \<times> 'v) list \<Rightarrow> string list" where
  "keys obj = remdups (map fst obj)"

text \<open>lodash \<open>omit(obj, key)\<close>: a shallow copy without the key; the values are shared.\<close>

definition omit :: "(string \<times> 'v) list \<Rightarrow> string \<Rightarrow> (string \<times> 'v) list" where
  "omit obj k = filter (\<lambda>kv. fst kv \<noteq> k) obj"

text \<open>
  Object spread \<open>{ ...a, ...b }\<close>: the properties of \<open>a\<close>, then every own property of \<open>b\<close>
  assigned over them.
\<close>

definition spread :: "(string \<times> 'v) list \<Rightarrow> (string \<times> 'v) list \<Rightarrow> (string \<times> 'v) list" where
  "spread a b =
     fold (\<lambda>k acc. case map_of b k of None \<Rightarrow> acc | Some v \<Rightarrow> AList.update k v acc) (keys b) a"

text \<open>\<open>x || []\<close> for an optional list, and \<open>...x\<close> for an optional object.\<close>

definition orEmpty :: "'a list option \<Rightarrow> 'a list" where
  "orEmpty x = (case x of None \<Rightarrow> [] | Some xs \<Rightarrow> xs)"

text \<open>
  The names every object inherits from \<open>Object.prototype\<close>. The expression \<open>obj[ name ]\<close>
  reads an own property first and an inherited one otherwise; \<open>hasOwnProperty\<close> and
  \<open>Object.keys\<close> see own properties only. The inherited values are functions (and, under
  \<open>__proto__\<close>, the prototype itself); none of them has a property \<open>attributes\<close>, \<open>classes\<close>,
  \<open>children\<close> or \<open>require\<close>, and what the code assigns to them is not followed: the model
  starts from an untouched \<open>Object.prototype\<close>.
\<close>

definition objectPrototypeNames :: "string list" where
  "objectPrototypeNames =
     [''constructor'', ''__defineGetter__'', ''__defineSetter__'', ''hasOwnProperty'',
      ''__lookupGetter__'', ''__lookupSetter__'', ''isPrototypeOf'', ''propertyIsEnumerable'',
      ''toString'', ''valueOf'', ''__proto__'', ''toLocaleString'']"

text \<open>
  Schema entries are objects that the code shares and assigns to, so they live in a store,
  addressed by number. An entry object \<open>{ attributes, classes, children, require }\<close> has
  every property optional; its \<open>children\<close> is an object whose values are entry objects,
  that is, addresses. A schema object maps tags to addresses.
\<close>

record eobj =
  o_attributes :: "string list option"
  o_classes :: "string list option"
  o_children :: "(string \<times> nat) list option"
  o_require :: "string list option"

type_synonym objschema = "(string \<times> nat) list"

type_synonym estore = "nat \<Rightarrow> eobj"

definition emptyObject :: eobj where
  "emptyObject = \<lparr>o_attributes = None, o_classes = None, o_children = None, o_require = None\<rparr>"

text \<open>
  What a reader of a schema sees: an entry with its children entries under it. The
  phrasing schema is a cyclic object graph (its entries are shared between nesting
  levels), so an entry is a possibly infinite tree: the unfolding of the graph.
\<close>

codatatype entry = Entry
  (attributes: "string list option")
  (classes: "string list option")
  (children: "(string \<times> entry) list option")
  (require: "string list option")

type_synonym schema = "(string \<times> entry) list"

text \<open>The entry an address denotes: the object with its children read through the store.\<close>

primcorec entry_of :: "estore \<Rightarrow> nat \<Rightarrow> entry" where
  "entry_of st r =
     Entry (o_attributes (st r)) (o_classes (st r))
       (map_option (map (map_prod id (entry_of st))) (o_children (st r)))
       (o_require (st r))"

definition schemaOf :: "objschema \<Rightarrow> estore \<Rightarrow> schema" where
  "schemaOf obj st = map (map_prod id (entry_of st)) obj"

text \<open>
  \<open>schema[ tag ]\<close> where the code takes the result for an entry: the own property, or the
  inherited value, which has none of the four properties.
\<close>

definition lookupEntry :: "schema \<Rightarrow> string \<Rightarrow> entry option" where
  "lookupEntry sch tag =
     (case map_of sch tag of
        Some e \<Rightarrow> Some e
      | None \<Rightarrow> if tag \<in> set objectPrototypeNames then Some (Entry None None None None) else None)"

definition TEXT_NODE :: string where "TEXT_NODE = ''3''"

subsection \<open>getPhrasingContentSchema\<close>

text \<open>
  The function builds eleven entry objects and then assigns to the \<open>children\<close> property
  of nine of them. The assignment changes objects that \<open>omit\<close> has already shared.
\<close>

text \<open>The object literal: the top-level object maps each key to the address of its entry.\<close>

definition phrasingContentSchema :: objschema where
  "phrasingContentSchema =
     [(''strong'', 0), (''em'', 1), (''del'', 2), (''ins'', 3), (''a'', 4), (''code'', 5),
      (''abbr'', 6), (''sub'', 7), (''sup'', 8), (''br'', 9), (TEXT_NODE, 10)]"

definition literalStore :: estore where
  "literalStore =
     (\<lambda>_. emptyObject)
       (4 := emptyObject\<lparr>o_attributes := Some [''href'']\<rparr>,
        6 := emptyObject\<lparr>o_attributes := Some [''title'']\<rparr>)"

text \<open>
  The body of the \<open>forEach\<close>: \<open>phrasingContentSchema[ tag ].children = omit( phrasingContentSchema, tag )\<close>.
  Every tag of the loop is a key of the literal, so the lookup never misses.
\<close>

definition setChildren :: "string \<Rightarrow> estore \<Rightarrow> estore" where
  "setChildren tag st =
     (case map_of phrasingContentSchema tag of
        None \<Rightarrow> st
      | Some r \<Rightarrow> st(r := (st r)\<lparr>o_children := Some (omit phrasingContentSchema tag)\<rparr>))"

definition nestingTags :: "string list" where
  "nestingTags = [''strong'', ''em'', ''del'', ''ins'', ''a'', ''code'', ''abbr'', ''sub'', ''sup'']"

definition phrasingStore :: estore where
  "phrasingStore = fold setChildren nestingTags literalStore"

definition getPhrasingContentSchema :: schema where
  "getPhrasingContentSchema = schemaOf phrasingContentSchema phrasingStore"

text \<open>The schema reached from \<open>s\<close> by descending through the \<open>children\<close> of the tags of a path.\<close>

fun schemaAt :: "schema \<Rightarrow> string list \<Rightarrow> schema option" where
  "schemaAt s [] = Some s"
| "schemaAt s (t # ts) =
     (case map_of s t of
        None \<Rightarrow> None
      | Some e \<Rightarrow> (case children e of None \<Rightarrow> None | Some c \<Rightarrow> schemaAt c ts))"

text \<open>A chain of nesting tags in which no tag is its own immediate child.\<close>

fun chain :: "string list \<Rightarrow> bool" where
  "chain [] = True"
| "chain [t] = (t \<in> set nestingTags)"
| "chain (t # u # ts) = (t \<in> set nestingTags \<and> t \<noteq> u \<and> chain (u # ts))"

subsection \<open>getBlockContentSchema\<close>

text \<open>
  A transform descriptor, reduced to the one property the function reads: its optional
  \<open>schema\<close> (the parameter default \<open>{ schema = {} }\<close> covers a descriptor without one). The
  schema is an object of entry objects, which the function does not copy: it puts the
  first contributor's entry object for a tag into \<open>accu\<close> and assigns to that object when
  a later contributor has the tag.
\<close>

type_synonym transform = "objschema option"

text \<open>
  The three assignments to \<open>accu[ tag ]\<close>, the object at \<open>a\<close>, from \<open>schema[ tag ]\<close>, the object
  at \<open>e\<close>, in the order of the source: \<open>children\<close> (when either side has the property) becomes
  a new object, the spread of both; then \<open>attributes\<close>, then \<open>require\<close> become the
  concatenations. Each right-hand side is read from the store as it is by then.
\<close>

definition assignMerged :: "nat \<Rightarrow> nat \<Rightarrow> estore \<Rightarrow> estore" where
  "assignMerged a e st =
     (let st1 =
            (if o_children (st a) \<noteq> None \<or> o_children (st e) \<noteq> None
             then st(a := (st a)\<lparr>o_children :=
                      Some (spread (orEmpty (o_children (st a))) (orEmpty (o_children (st e))))\<rparr>)
             else st);
          st2 = st1(a := (st1 a)\<lparr>o_attributes :=
                      Some (orEmpty (o_attributes (st1 a)) @ orEmpty (o_attributes (st1 e)))\<rparr>);
          st3 = st2(a := (st2 a)\<lparr>o_require :=
                      Some (orEmpty (o_require (st2 a)) @ orEmpty (o_require (st2 e)))\<rparr>)
      in st3)"

text \<open>
  The body of the inner \<open>forEach\<close>, for one \<open>tag\<close> of \<open>Object.keys( schema )\<close>, on \<open>accu\<close> and the
  store; \<open>contribute\<close> is the body once \<open>schema[ tag ]\<close>, the contributor's entry object, is
  known. \<open>accu[ tag ]\<close> is truthy when \<open>accu\<close> has the tag, and also when the tag is a name
  that \<open>accu\<close> inherits: then the assignments go to the inherited value and \<open>accu\<close> never gets
  the tag. Otherwise the tag is added with the contributor's entry object itself.
\<close>

definition contribute :: "string \<times> nat \<Rightarrow> objschema \<times> estore \<Rightarrow> objschema \<times> estore" where
  "contribute kv s =
     (case map_of (fst s) (fst kv) of
        Some a \<Rightarrow> (fst s, assignMerged a (snd kv) (snd s))
      | None \<Rightarrow>
          if fst kv \<in> set objectPrototypeNames then s
          else (AList.update (fst kv) (snd kv) (fst s), snd s))"

definition mergeTag :: "objschema \<Rightarrow> string \<Rightarrow> objschema \<times> estore \<Rightarrow> objschema \<times> estore" where
  "mergeTag sch tag s =
     (case map_of sch tag of
        None \<Rightarrow> s
      | Some e \<Rightarrow> contribute (tag, e) s)"

text \<open>The function returns \<open>accu\<close>; the store it leaves is returned with it.\<close>

definition getBlockContentSchema :: "transform list \<Rightarrow> estore \<Rightarrow> objschema \<times> estore" where
  "getBlockContentSchema transforms st =
     fold (\<lambda>t s. fold (mergeTag (orEmpty t)) (keys (orEmpty t)) s) transforms ([], st)"

text \<open>The composed schema as its readers see it.\<close>

definition composed :: "transform list \<Rightarrow> estore \<Rightarrow> schema" where
  "composed transforms st =
     schemaOf (fst (getBlockContentSchema transforms st)) (snd (getBlockContentSchema transforms st))"

text \<open>What a schema allows for a tag: its attributes, its required selectors, the tags of
  its children schema, and the entry of one child tag.\<close>

definition attributesOf :: "schema \<Rightarrow> string \<Rightarrow> string set" where
  "attributesOf sch tag = (case map_of sch tag of None \<Rightarrow> {} | Some e \<Rightarrow> set (orEmpty (attributes e)))"

definition requireOf :: "schema \<Rightarrow> string \<Rightarrow> string set" where
  "requireOf sch tag = (case map_of sch tag of None \<Rightarrow> {} | Some e \<Rightarrow> set (orEmpty (require e)))"

definition childTagsOf :: "schema \<Rightarrow> string \<Rightarrow> string set" where
  "childTagsOf sch tag =
     (case map_of sch tag of None \<Rightarrow> {} | Some e \<Rightarrow> set (map fst (orEmpty (children e))))"

definition childEntry :: "schema \<Rightarrow> string \<Rightarrow> string \<Rightarrow> entry option" where
  "childEntry sch tag child =
     (case map_of sch tag of None \<Rightarrow> None | Some e \<Rightarrow> map_of (orEmpty (children e)) child)"

text \<open>
  The condition under which the assignments in place reach no other contributor: every
  schema object has each tag once, no entry object is under two tags or in two
  descriptors, and no tag is a name that objects inherit.
\<close>

definition separate :: "transform list \<Rightarrow> bool" where
  "separate ts =
     (distinct (concat (map (\<lambda>t. map snd (orEmpty t)) ts))
      \<and> list_all (\<lambda>t. distinct (map fst (orEmpty t))) ts
      \<and> list_all (\<lambda>t. list_all (\<lambda>kv. fst kv \<notin> set objectPrototypeNames) (orEmpty t)) ts)"

text \<open>The entry objects under one tag in a list of contributions, and in a list of
  descriptors, in the order of their contributors.\<close>

definition tagged :: "(string \<times> nat) list \<Rightarrow> string \<Rightarrow> nat list" where
  "tagged cs tag = map snd (filter (\<lambda>kv. fst kv = tag) cs)"

definition contributors :: "transform list \<Rightarrow> string \<Rightarrow> nat list" where
  "contributors ts tag = tagged (concat (map orEmpty ts)) tag"

text \<open>The merge of two entry objects as values: what \<open>assignMerged\<close> leaves at \<open>a\<close>.\<close>

definition mergeObjects :: "eobj \<Rightarrow> eobj \<Rightarrow> eobj" where
  "mergeObjects a e =
     \<lparr>o_attributes = Some (orEmpty (o_attributes a) @ orEmpty (o_attributes e)),
      o_classes = o_classes a,
      o_children =
        (if o_children a \<noteq> None \<or> o_children e \<noteq> None
         then Some (spread (orEmpty (o_children a)) (orEmpty (o_children e)))
         else None),
      o_require = Some (orEmpty (o_require a) @ orEmpty (o_require e))\<rparr>"

text \<open>
  A store of entry objects for the examples: two \<open>figure\<close> entries (at 0 and 2) with an
  \<open>img\<close> child entry each (at 1 and 3), and three plain entries (at 4, 5 and 6).
\<close>

definition exampleStore :: estore where
  "exampleStore =
     (\<lambda>_. emptyObject)
       (0 := emptyObject\<lparr>o_classes := Some [''one''], o_children := Some [(''img'', 1)]\<rparr>,
        1 := emptyObject\<lparr>o_attributes := Some [''src'']\<rparr>,
        2 := emptyObject\<lparr>o_classes := Some [''two''], o_children := Some [(''img'', 3)]\<rparr>,
        3 := emptyObject\<lparr>o_attributes := Some [''alt'']\<rparr>,
        4 := emptyObject\<lparr>o_attributes := Some [''a'']\<rparr>,
        5 := emptyObject\<lparr>o_attributes := Some [''f'']\<rparr>,
        6 := emptyObject\<lparr>o_attributes := Some [''c'']\<rparr>)"

section \<open>Nodes\<close>

text \<open>
  A node of a parsed document, as a value: an element with its tag, its attributes (name
  and value, in order) and its child nodes, a text node or a comment, each with its data.
  Elements are HTML elements. An element holds its tag in lower case, which is what the
  HTML parser and \<open>createElement\<close> of an HTML document give; \<open>nodeName\<close> is its upper-case
  form. So
  \<open>node.nodeName.toLowerCase()\<close> is \<open>tagOf\<close>, and \<open>node.nodeName === 'BR'\<close> is
  \<open>isElement node \<and> tagOf node = ''br''\<close>.
  An HTML string stands for the child nodes of \<open>body\<close> that the browser's parser builds
  from it (\<open>doc.body.innerHTML = HTML\<close>); the parser is not part of the repository.
\<close>

datatype node =
    Element string "(string \<times> string) list" "node list"
  | Text string
  | Comment string

fun tagOf :: "node \<Rightarrow> string" where
  "tagOf (Element t _ _) = t"
| "tagOf (Text _) = ''#text''"
| "tagOf (Comment _) = ''#comment''"

text \<open>\<open>node.nodeType\<close>, as the property key it is when a schema is asked for it.\<close>

fun nodeType :: "node \<Rightarrow> string" where
  "nodeType (Element _ _ _) = ''1''"
| "nodeType (Text _) = ''3''"
| "nodeType (Comment _) = ''8''"

fun isElement :: "node \<Rightarrow> bool" where
  "isElement (Element _ _ _) = True"
| "isElement _ = False"

fun childNodes :: "node \<Rightarrow> node list" where
  "childNodes (Element _ _ cs) = cs"
| "childNodes _ = []"

lemma size_childNodes: "size_list size (childNodes n) \<le> size n"
  by (cases n) auto

text \<open>\<open>node.children\<close>: the child nodes that are elements.\<close>

definition elementChildren :: "node \<Rightarrow> node list" where
  "elementChildren n = filter isElement (childNodes n)"

text \<open>The \<open>BR\<close> test of \<open>isEmpty\<close> and \<open>isDoubleBR\<close>.\<close>

definition isBR :: "node \<Rightarrow> bool" where
  "isBR n = (isElement n \<and> tagOf n = ''br'')"

subsection \<open>Strings\<close>

text \<open>
  A character is a code unit below 256. \<open>String.prototype.trim\<close> removes white space and
  line terminators at both ends; below 256 these are tab, line feed, vertical tab, form
  feed, carriage return, space and no-break space.
\<close>

definition isWhiteSpace :: "char \<Rightarrow> bool" where
  "isWhiteSpace c =
     (c \<in> set [CHR 0x09, CHR 0x0A, CHR 0x0B, CHR 0x0C, CHR 0x0D, CHR 0x20, CHR 0xA0])"

definition trim :: "string \<Rightarrow> string" where
  "trim s = rev (dropWhile isWhiteSpace (rev (dropWhile isWhiteSpace s)))"

text \<open>\<open>s.split( ' ' )\<close> and \<open>ws.join( ' ' )\<close>.\<close>

fun splitSpace :: "string \<Rightarrow> string list" where
  "splitSpace [] = [[]]"
| "splitSpace (c # cs) =
     (if c = CHR '' '' then [] # splitSpace cs
      else (case splitSpace cs of [] \<Rightarrow> [[c]] | w # ws \<Rightarrow> (c # w) # ws))"

fun joinSpace :: "string list \<Rightarrow> string" where
  "joinSpace [] = []"
| "joinSpace [w] = w"
| "joinSpace (w # v # ws) = w @ CHR '' '' # joinSpace (v # ws)"

subsection \<open>Serialization\<close>

text \<open>
  The \<open>innerHTML\<close> getter, after the HTML standard's fragment serialization: void elements
  have no end tag and no content, text is escaped except inside raw text elements, and
  attribute values are escaped and quoted.
\<close>

definition voidElements :: "string list" where
  "voidElements =
     [''area'', ''base'', ''basefont'', ''bgsound'', ''br'', ''col'', ''embed'', ''frame'', ''hr'',
      ''img'', ''input'', ''keygen'', ''link'', ''meta'', ''param'', ''source'', ''track'', ''wbr'']"

definition rawTextElements :: "string list" where
  "rawTextElements =
     [''style'', ''script'', ''xmp'', ''iframe'', ''noembed'', ''noframes'', ''plaintext'']"

fun escapeText :: "string \<Rightarrow> string" where
  "escapeText [] = []"
| "escapeText (c # cs) =
     (if c = CHR ''&'' then ''&amp;''
      else if c = CHR 0xA0 then ''&nbsp;''
      else if c = CHR ''<'' then ''&lt;''
      else if c = CHR ''>'' then ''&gt;''
      else [c]) @ escapeText cs"

fun escapeAttribute :: "string \<Rightarrow> string" where
  "escapeAttribute [] = []"
| "escapeAttribute (c # cs) =
     (if c = CHR ''&'' then ''&amp;''
      else if c = CHR 0xA0 then ''&nbsp;''
      else if c = CHR 0x22 then ''&quot;''
      else [c]) @ escapeAttribute cs"

definition serializeAttribute :: "string \<times> string \<Rightarrow> string" where
  "serializeAttribute a = '' '' @ fst a @ ''='' @ [CHR 0x22] @ escapeAttribute (snd a) @ [CHR 0x22]"

fun serialize :: "bool \<Rightarrow> node list \<Rightarrow> string" where
  "serialize raw [] = []"
| "serialize raw (Text v # ns) = (if raw then v else escapeText v) @ serialize raw ns"
| "serialize raw (Comment v # ns) = ''<!--'' @ v @ ''-->'' @ serialize raw ns"
| "serialize raw (Element t as cs # ns) =
     ''<'' @ t @ concat (map serializeAttribute as) @ ''>''
     @ (if t \<in> set voidElements then []
        else serialize (t \<in> set rawTextElements) cs @ ''</'' @ t @ ''>'')
     @ serialize raw ns"

section \<open>Content classifiers\<close>

subsection \<open>isPhrasingContent and isEmpty (utils.js)\<close>

definition isPhrasingContent :: "node \<Rightarrow> bool" where
  "isPhrasingContent node =
     (hasOwnProperty getPhrasingContentSchema (tagOf node) \<or> tagOf node = ''span'')"

fun isEmpty :: "node \<Rightarrow> bool" where
  "isEmpty (Element t as cs) =
     list_all
       (\<lambda>node. case node of
           Text v \<Rightarrow> trim v = []
         | Element t' as' cs' \<Rightarrow>
             (if t' = ''br'' then True else if as' \<noteq> [] then False else isEmpty node)
         | Comment _ \<Rightarrow> True)
       cs"
| "isEmpty _ = True"

subsection \<open>isInlineContent (is-inline-content.js)\<close>

definition inlineWhitelistTagGroups :: "string list list" where
  "inlineWhitelistTagGroups =
     [[''ul'', ''li'', ''ol''], [''h1'', ''h2'', ''h3'', ''h4'', ''h5'', ''h6'']]"

text \<open>The context tag is optional; a missing one and the empty string are both falsy.\<close>

definition isInlineForTag :: "string \<Rightarrow> string option \<Rightarrow> bool" where
  "isInlineForTag nodeName tagName =
     (case tagName of
        None \<Rightarrow> False
      | Some tn \<Rightarrow>
          if tn = [] \<or> nodeName = [] then False
          else list_ex (\<lambda>tagGroup. nodeName \<in> set tagGroup \<and> tn \<in> set tagGroup)
                 inlineWhitelistTagGroups)"

definition isInline :: "node \<Rightarrow> string option \<Rightarrow> bool" where
  "isInline node tagName = (isPhrasingContent node \<or> isInlineForTag (tagOf node) tagName)"

lemma size_filter_le: "size_list f (filter P xs) \<le> size_list f xs"
  by (induction xs) auto

function deepCheck :: "node list \<Rightarrow> string option \<Rightarrow> bool" where
  "deepCheck [] tagName = True"
| "deepCheck (node # nodes) tagName =
     ((isInline node tagName \<and> deepCheck (elementChildren node) tagName)
      \<and> deepCheck nodes tagName)"
  by pat_completeness auto
termination
proof (relation "measure (\<lambda>(ns, _). size_list size ns)")
  fix node :: node and nodes :: "node list" and tagName :: "string option"
  have "size_list size (elementChildren node) \<le> size node"
    unfolding elementChildren_def
    by (cases node) (auto intro: le_SucI size_filter_le)
  then show "((elementChildren node, tagName), node # nodes, tagName)
      \<in> measure (\<lambda>(ns, _). size_list size ns)"
    by simp
qed auto

text \<open>
  \<open>isDoubleBR\<close> reads the node and its \<open>previousSibling\<close> (any node, not only an element);
  \<open>withPrevious\<close> pairs every node of a list of siblings with the one before it.
\<close>

definition isDoubleBR :: "node option \<times> node \<Rightarrow> bool" where
  "isDoubleBR pn =
     (isBR (snd pn) \<and> (case fst pn of None \<Rightarrow> False | Some previousSibling \<Rightarrow> isBR previousSibling))"

fun withPrevious :: "node option \<Rightarrow> node list \<Rightarrow> (node option \<times> node) list" where
  "withPrevious p [] = []"
| "withPrevious p (n # ns) = (p, n) # withPrevious (Some n) ns"

text \<open>
  The default export. \<open>body\<close> is the list of child nodes of \<open>doc.body\<close> after the
  assignment to \<open>innerHTML\<close>; \<open>nodes\<close> is \<open>doc.body.children\<close>, its elements.
\<close>

definition isInlineContent :: "node list \<Rightarrow> string option \<Rightarrow> bool" where
  "isInlineContent body tagName =
     (let nodes = filter isElement body in
      \<not> list_ex isDoubleBR (filter (\<lambda>pn. isElement (snd pn)) (withPrevious None body))
      \<and> deepCheck nodes tagName)"

section \<open>The schema sanitizer (utils.js)\<close>

text \<open>
  A call that throws returns the error: a \<open>TypeError\<close> of JavaScript, one of the two
  exceptions that \<open>insertBefore\<close> of the DOM raises, or the \<open>SyntaxError\<close> of \<open>querySelector\<close>
  for a string that is no selector.
\<close>

datatype error = TypeError | HierarchyRequestError | NotFoundError | SyntaxError

text \<open>
  Modelled from the spec: \<open>unwrap\<close>, \<open>remove\<close> and \<open>insertAfter\<close> of \<open>@wordpress/utils\<close>, which
  are not among the sources. The spec: "Unwrap: remove a node from the tree while splicing
  its children into its former position, preserving order". On values, \<open>unwrap\<close> and
  \<open>remove\<close> give the nodes that stand in the parent's child list where the node stood, and
  \<open>insertAfter\<close> adds the new node after them (the new node goes right after the node, which
  is then unwrapped).
\<close>

definition unwrap :: "node \<Rightarrow> node list" where
  "unwrap node = childNodes node"

definition remove :: "node \<Rightarrow> node list" where
  "remove node = []"

definition insertAfter :: "node \<Rightarrow> node list \<Rightarrow> node list" where
  "insertAfter newNode place = place @ [newNode]"

text \<open>The node with its child nodes replaced (a text node or a comment has none).\<close>

fun withChildNodes :: "node \<Rightarrow> node list \<Rightarrow> node" where
  "withChildNodes (Element t as _) cs = Element t as cs"
| "withChildNodes n _ = n"

text \<open>
  \<open>node.querySelector( require.join( ',' ) )\<close> is the browser's: it matches CSS selectors
  against the descendants of the node in the document as it is at that moment, and what
  it finds can depend on everything around the node. Within one run of the sanitizer
  every node of the input is reached at most once, so the answers of the browser in that
  run are a function of the place of the node in the input (the child indices from \<open>body\<close>
  down to the node, innermost first), the selector string and the node. That function is
  a parameter: \<open>Inr True\<close> when an element is found, \<open>Inr False\<close> when none is, and the
  error when the call throws.
\<close>

type_synonym query = "nat list \<Rightarrow> string \<Rightarrow> node \<Rightarrow> error + bool"

fun joinComma :: "string list \<Rightarrow> string" where
  "joinComma [] = []"
| "joinComma [w] = w"
| "joinComma (w # v # ws) = w @ CHR '','' # joinComma (v # ws)"

text \<open>
  The answers of the browser for a selector that is one tag name, such as the
  \<open>require: [ 'img' ]\<close> of the repository's schemas: an element with that tag among the
  descendants. It is the query of the examples, all of which ask for \<open>img\<close>.
\<close>

function descendantTagged :: "string \<Rightarrow> node list \<Rightarrow> bool" where
  "descendantTagged tag [] = False"
| "descendantTagged tag (n # ns) =
     ((isElement n \<and> tagOf n = tag) \<or> descendantTagged tag (childNodes n)
      \<or> descendantTagged tag ns)"
  by pat_completeness auto
termination
  by (relation "measure (\<lambda>(_, ns). size_list size ns)")
     (auto simp: less_Suc_eq_le intro: size_childNodes trans_le_add1)

definition tagQuery :: query where
  "tagQuery place selector node = Inr (descendantTagged selector (childNodes node))"

text \<open>
  Strip invalid attributes: every attribute but \<open>class\<close> and the allowed ones is removed.
\<close>

definition stripAttributes :: "string list \<Rightarrow> (string \<times> string) list \<Rightarrow> (string \<times> string) list" where
  "stripAttributes allowed as =
     filter (\<lambda>a. fst a = ''class'' \<or> fst a \<in> set allowed) as"

text \<open>
  Strip invalid classes: the \<open>class\<close> attribute is set to its allowed names, or removed
  when none is left.
\<close>

definition stripClasses :: "string list \<Rightarrow> (string \<times> string) list \<Rightarrow> (string \<times> string) list" where
  "stripClasses allowed as =
     (let oldClasses = (case map_of as ''class'' of None \<Rightarrow> [] | Some v \<Rightarrow> v);
          newClasses =
            joinSpace (filter (\<lambda>name. name \<noteq> [] \<and> name \<in> set allowed) (splitSpace oldClasses))
      in if newClasses \<noteq> [] then AList.update ''class'' newClasses as
         else filter (\<lambda>a. fst a \<noteq> ''class'') as)"

text \<open>
  \<open>cleanNodeList\<close> changes the document in place. Every change it makes for a node of the
  list is local: the node is removed, replaced by its children (with a \<open>br\<close> after them), or
  kept with fewer attributes and cleaned children, and the nodes after it are still the
  ones of the list when \<open>nextElementSibling\<close> is read. So, on values, the function returns
  the nodes that the list has become, or the error it threw. \<open>up\<close> and \<open>i\<close> are the place of
  the first node of the list: the places of its ancestors, and its index among its
  siblings in the input.

  In the \<open>require\<close> branch the source has no \<open>return\<close>: after \<open>unwrap( node )\<close> it goes on to
  clean \<open>node.childNodes\<close>, which is empty by then, against \<open>children\<close>. \<open>querySelector\<close> is
  called only when \<open>require\<close> is not empty.

  An entry without \<open>children\<close> on a node that has child nodes reaches
  \<open>node.removeNode( node.firstChild )\<close>; a DOM node has no method \<open>removeNode\<close>, so the call
  throws a \<open>TypeError\<close>. So does the destructuring of \<open>schema[ tag ]\<close> when the schema has
  the key of the node type (\<open>''1''\<close>) and nothing under the tag.
\<close>

function cleanNodeList ::
  "query \<Rightarrow> nat list \<Rightarrow> nat \<Rightarrow> node list \<Rightarrow> schema \<Rightarrow> bool \<Rightarrow> error + node list" where
  "cleanNodeList q up i [] sch inline = Inr []"
| "cleanNodeList q up i (node # rest) sch inline =
     (case
        (if hasOwnProperty sch (tagOf node) \<or> hasOwnProperty sch (nodeType node) then
           (case node of
              Element t as cs \<Rightarrow>
                (case lookupEntry sch t of
                   None \<Rightarrow> Inl TypeError
                 | Some e \<Rightarrow>
                     if isEmpty node \<and> children e \<noteq> None then Inr (remove node)
                     else
                       let as' = stripClasses (orEmpty (classes e))
                                   (stripAttributes (orEmpty (attributes e)) as)
                       in
                       if cs \<noteq> [] then
                         (case children e of
                            Some c \<Rightarrow>
                              (case
                                 (if orEmpty (require e) \<noteq> []
                                  then q (i # up) (joinComma (orEmpty (require e))) (Element t as' cs)
                                  else Inr True)
                               of
                                 Inl err \<Rightarrow> Inl err
                               | Inr found \<Rightarrow>
                                   if \<not> found then
                                     (case cleanNodeList q (i # up) 0 cs sch inline of
                                        Inl err \<Rightarrow> Inl err
                                      | Inr cs' \<Rightarrow>
                                          (case cleanNodeList q (i # up) 0 [] c inline of
                                             Inl err \<Rightarrow> Inl err
                                           | Inr _ \<Rightarrow> Inr (unwrap (Element t as' cs'))))
                                   else
                                     (case cleanNodeList q (i # up) 0 cs c inline of
                                        Inl err \<Rightarrow> Inl err
                                      | Inr cs' \<Rightarrow> Inr [Element t as' cs']))
                          | None \<Rightarrow> Inl TypeError)
                       else Inr [Element t as' []])
            | _ \<Rightarrow> Inr [node])
         else
           (case cleanNodeList q (i # up) 0 (childNodes node) sch inline of
              Inl err \<Rightarrow> Inl err
            | Inr cs' \<Rightarrow>
                if inline \<and> \<not> isPhrasingContent node \<and> list_ex isElement rest
                then Inr (insertAfter (Element ''br'' [] []) (unwrap (withChildNodes node cs')))
                else Inr (unwrap (withChildNodes node cs'))))
      of
        Inl err \<Rightarrow> Inl err
      | Inr out \<Rightarrow>
          (case cleanNodeList q up (Suc i) rest sch inline of
             Inl err \<Rightarrow> Inl err
           | Inr outs \<Rightarrow> Inr (out @ outs)))"
  by pat_completeness auto
termination
  by (relation "measure (\<lambda>(_, _, _, ns, _, _). size_list size ns)")
     (auto simp: less_Suc_eq_le intro: size_childNodes trans_le_add1)

text \<open>
  \<open>removeInvalidHTML\<close>: the string is parsed into \<open>body\<close>, the child nodes of \<open>body\<close> are
  cleaned, and \<open>body\<close> is serialized. The parser is the browser's and is a parameter; the
  query is the one of this run.
\<close>

definition removeInvalidHTML ::
  "query \<Rightarrow> (string \<Rightarrow> node list) \<Rightarrow> string \<Rightarrow> schema \<Rightarrow> bool \<Rightarrow> error + string" where
  "removeInvalidHTML q parse html sch inline =
     (case cleanNodeList q [] 0 (parse html) sch inline of
        Inl err \<Rightarrow> Inl err
      | Inr ns \<Rightarrow> Inr (serialize False ns))"

text \<open>
  What the browser's parser builds for the strings of the examples (and nothing for any
  other string): the value of the parameter where a concrete parser is needed.
\<close>

definition parseKnown :: "string \<Rightarrow> node list" where
  \<open>parseKnown s =
     (if s = ''<strong><img src="x"></strong>''
        then [Element ''strong'' [] [Element ''img'' [(''src'', ''x'')] []]]
      else if s = ''<strong></strong>'' then [Element ''strong'' [] []]
      else if s = ''<strong id="x"><p>b</p></strong>''
        then [Element ''strong'' [(''id'', ''x'')] [Element ''p'' [] [Text ''b'']]]
      else if s = ''<strong>b</strong>'' then [Element ''strong'' [] [Text ''b'']]
      else if s = ''<p>a</p><div>b</div>''
        then [Element ''p'' [] [Text ''a''], Element ''div'' [] [Text ''b'']]
      else if s = ''a<br>b'' then [Text ''a'', Element ''br'' [] [], Text ''b'']
      else if s = ''ab'' then [Text ''ab'']
      else [])\<close>

text \<open>
  A schema with a \<open>figure\<close> entry that requires an \<open>img\<close> descendant, and with \<open>br\<close> and text
  nodes allowed at the same level; and a schema that allows text nodes only.
\<close>

definition figureSchema :: schema where
  "figureSchema =
     [(''figure'', Entry None None (Some [(''img'', Entry None None None None)]) (Some [''img''])),
      (''br'', Entry None None None None),
      (TEXT_NODE, Entry None None None None)]"

definition textSchema :: schema where
  "textSchema = [(TEXT_NODE, Entry None None None None)]"

subsection \<open>What a sanitized tree looks like\<close>



text \<open>
  A list of nodes at a place is settled for a schema and a query when no element in it,
  taken with the schema level it is read against, is empty under an entry with
  \<open>children\<close>, and for every element whose entry has \<open>children\<close> and a \<open>require\<close> list the query
  finds a required descendant.
\<close>

fun settled :: "query \<Rightarrow> nat list \<Rightarrow> nat \<Rightarrow> node list \<Rightarrow> schema \<Rightarrow> bool" where
  "settled q up i [] sch = True"
| "settled q up i (Element t as cs # ns) sch =
     ((case lookupEntry sch t of
         None \<Rightarrow> True
       | Some e \<Rightarrow>
           (case children e of
              None \<Rightarrow> True
            | Some c \<Rightarrow>
                \<not> isEmpty (Element t as cs)
                \<and> (orEmpty (require e) = []
                    \<or> q (i # up) (joinComma (orEmpty (require e))) (Element t as cs) = Inr True)
                \<and> settled q (i # up) 0 cs c))
      \<and> settled q up (Suc i) ns sch)"
| "settled q up i (n # ns) sch = settled q up (Suc i) ns sch"

section \<open>The document as a store\<close>

text \<open>
  The filters move nodes between distant places of one document, so the filter engine runs
  on a store: nodes are addresses, and the document holds, for every address, the node's
  own part (its kind, tag and attributes or data, as a \<open>node\<close> value without child nodes),
  its parent and its child nodes. \<open>body\<close> is the root: the \<open>html\<close> element and the document
  node above it are left out, since neither is ever named \<open>P\<close>, moved or removed, and both
  contain \<open>body\<close>. \<open>fresh\<close> is the next address \<open>createElement\<close> gives out; every node in use
  has a smaller one.
\<close>

type_synonym ref = nat

record document =
  nodeData :: "ref \<Rightarrow> node"
  parentNode :: "ref \<Rightarrow> ref option"
  childNodesOf :: "ref \<Rightarrow> ref list"
  fresh :: ref

definition body :: ref where
  "body = 0"

definition createHTMLDocument :: document where
  "createHTMLDocument =
     \<lparr>nodeData = (\<lambda>_. Element ''body'' [] []), parentNode = (\<lambda>_. None),
      childNodesOf = (\<lambda>_. []), fresh = 1\<rparr>"

definition createElement :: "document \<Rightarrow> string \<Rightarrow> document \<times> ref" where
  "createElement doc tag =
     (doc\<lparr>nodeData := (nodeData doc)(fresh doc := Element tag [] []),
          parentNode := (parentNode doc)(fresh doc := None),
          childNodesOf := (childNodesOf doc)(fresh doc := []),
          fresh := fresh doc + 1\<rparr>,
      fresh doc)"

text \<open>\<open>a\<close> is \<open>n\<close> or an ancestor of \<open>n\<close>; the walk up takes at most \<open>k\<close> steps.\<close>

fun inclusiveAncestor :: "nat \<Rightarrow> document \<Rightarrow> ref \<Rightarrow> ref \<Rightarrow> bool" where
  "inclusiveAncestor 0 doc a n = (n = a)"
| "inclusiveAncestor (Suc k) doc a n =
     (n = a \<or> (case parentNode doc n of None \<Rightarrow> False | Some p \<Rightarrow> inclusiveAncestor k doc a p))"

text \<open>\<open>doc.contains( node )\<close>: the node is in the tree of the document.\<close>

definition contains :: "document \<Rightarrow> ref \<Rightarrow> bool" where
  "contains doc n = inclusiveAncestor (fresh doc) doc body n"

text \<open>A node leaves its parent, if it has one.\<close>

definition detach :: "document \<Rightarrow> ref \<Rightarrow> document" where
  "detach doc n =
     (case parentNode doc n of
        None \<Rightarrow> doc
      | Some p \<Rightarrow>
          doc\<lparr>childNodesOf := (childNodesOf doc)(p := remove1 n (childNodesOf doc p)),
              parentNode := (parentNode doc)(n := None)\<rparr>)"

fun insertAt :: "ref \<Rightarrow> ref option \<Rightarrow> ref list \<Rightarrow> ref list" where
  "insertAt n None cs = cs @ [n]"
| "insertAt n (Some c) [] = [n]"
| "insertAt n (Some c) (x # xs) = (if x = c then n # x # xs else x # insertAt n (Some c) xs)"

text \<open>
  \<open>parent.insertBefore( n, child )\<close> of the DOM: \<open>child\<close> must be a child of \<open>parent\<close>, and \<open>n\<close>
  must not be \<open>parent\<close> or one of its ancestors; \<open>n\<close> leaves its old parent first.
  \<open>appendChild\<close> inserts before nothing. (Inserting a node before itself is not needed here.)
\<close>

definition insertBefore :: "document \<Rightarrow> ref \<Rightarrow> ref \<Rightarrow> ref option \<Rightarrow> error + document" where
  "insertBefore doc parent n child =
     (if inclusiveAncestor (fresh doc) doc n parent then Inl HierarchyRequestError
      else if (case child of None \<Rightarrow> False | Some c \<Rightarrow> c \<notin> set (childNodesOf doc parent))
      then Inl NotFoundError
      else
        let doc' = detach doc n in
        Inr (doc'\<lparr>childNodesOf :=
                    (childNodesOf doc')(parent := insertAt n child (childNodesOf doc' parent)),
                  parentNode := (parentNode doc')(n := Some parent)\<rparr>))"

definition appendChild :: "document \<Rightarrow> ref \<Rightarrow> ref \<Rightarrow> error + document" where
  "appendChild doc parent n = insertBefore doc parent n None"

text \<open>\<open>node.parentElement\<close>: the parent, when it is an element.\<close>

definition parentElement :: "document \<Rightarrow> ref \<Rightarrow> ref option" where
  "parentElement doc n =
     (case parentNode doc n of
        None \<Rightarrow> None
      | Some p \<Rightarrow> if isElement (nodeData doc p) then Some p else None)"

text \<open>
  \<open>doc.body.innerHTML = HTML\<close>: the parsed nodes are put into the store, as children of \<open>p\<close>.
\<close>

function load :: "node list \<Rightarrow> ref \<Rightarrow> document \<Rightarrow> document" where
  "load [] p doc = doc"
| "load (n # ns) p doc =
     (let r = fresh doc;
          doc1 = doc\<lparr>nodeData := (nodeData doc)(r := withChildNodes n []),
                     parentNode := (parentNode doc)(r := Some p),
                     childNodesOf := (childNodesOf doc)(p := childNodesOf doc p @ [r], r := []),
                     fresh := r + 1\<rparr>
      in load ns p (load (childNodes n) r doc1))"
  by pat_completeness auto
termination
  by (relation "measure (\<lambda>(ns, _, _). size_list size ns)")
     (auto simp: less_Suc_eq_le intro: size_childNodes trans_le_add1)

text \<open>
  The nodes at a list of addresses, as values, read from the store down to depth \<open>k\<close>;
  \<open>None\<close> when the tree is deeper.
\<close>

fun nodesAt :: "nat \<Rightarrow> document \<Rightarrow> ref list \<Rightarrow> node list option" where
  "nodesAt 0 doc rs = None"
| "nodesAt (Suc k) doc [] = Some []"
| "nodesAt (Suc k) doc (r # rs) =
     (case nodesAt k doc (childNodesOf doc r) of
        None \<Rightarrow> None
      | Some cs \<Rightarrow>
          (case nodesAt (Suc k) doc rs of
             None \<Rightarrow> None
           | Some ns \<Rightarrow> Some (withChildNodes (nodeData doc r) cs # ns)))"

text \<open>\<open>doc.body.innerHTML\<close>, read; \<open>None\<close> when the tree is deeper than the store has nodes.\<close>

definition innerHTML :: "document \<Rightarrow> string option" where
  "innerHTML doc = map_option (serialize False) (nodesAt (fresh doc) doc (childNodesOf doc body))"

section \<open>The filter engine (utils.js)\<close>

text \<open>
  A filter gets the node, the document and the schema (which a caller may leave out) and
  changes the document. It may throw, and a loop in it may not end: its result is \<open>None\<close>
  when it does not return, the error when it throws, and the changed document otherwise.
\<close>

type_synonym filter = "ref \<Rightarrow> document \<Rightarrow> schema option \<Rightarrow> (error + document) option"

text \<open>The inner \<open>forEach\<close> over the filters, for one node.\<close>

fun applyFilters :: "filter list \<Rightarrow> ref \<Rightarrow> document \<Rightarrow> schema option \<Rightarrow> (error + document) option" where
  "applyFilters [] node doc sch = Some (Inr doc)"
| "applyFilters (item # filters) node doc sch =
     (if \<not> contains doc node then applyFilters filters node doc sch
      else
        (case item node doc sch of
           None \<Rightarrow> None
         | Some (Inl err) \<Rightarrow> Some (Inl err)
         | Some (Inr doc') \<Rightarrow> applyFilters filters node doc' sch))"

text \<open>
  \<open>deepFilterNodeList\<close>. The list is the copy \<open>Array.from( nodeList )\<close> made on entry; the
  child nodes of a node are read when its turn comes. The recursion follows the document
  as the filters leave it, so it is bounded by \<open>k\<close>, the depth it may descend; the result is
  \<open>None\<close> when the bound is reached.
\<close>

fun deepFilterNodeList ::
  "nat \<Rightarrow> ref list \<Rightarrow> filter list \<Rightarrow> document \<Rightarrow> schema option \<Rightarrow> (error + document) option" where
  "deepFilterNodeList k [] filters doc sch = Some (Inr doc)"
| "deepFilterNodeList 0 (node # nodeList) filters doc sch = None"
| "deepFilterNodeList (Suc k) (node # nodeList) filters doc sch =
     (case deepFilterNodeList k (childNodesOf doc node) filters doc sch of
        None \<Rightarrow> None
      | Some (Inl err) \<Rightarrow> Some (Inl err)
      | Some (Inr doc1) \<Rightarrow>
          (case applyFilters filters node doc1 sch of
             None \<Rightarrow> None
           | Some (Inl err) \<Rightarrow> Some (Inl err)
           | Some (Inr doc2) \<Rightarrow> deepFilterNodeList (Suc k) nodeList filters doc2 sch))"

text \<open>\<open>deepFilterHTML\<close>, on the parsed child nodes of \<open>body\<close>; the result is the serialization.\<close>

definition deepFilterHTML ::
  "nat \<Rightarrow> node list \<Rightarrow> filter list \<Rightarrow> schema option \<Rightarrow> (error + string) option" where
  "deepFilterHTML k html filters sch =
     (let doc = load html body createHTMLDocument in
      case deepFilterNodeList k (childNodesOf doc body) filters doc sch of
        None \<Rightarrow> None
      | Some (Inl err) \<Rightarrow> Some (Inl err)
      | Some (Inr doc') \<Rightarrow> map_option Inr (innerHTML doc'))"

text \<open>A filter that leaves its work out when the node is not in the document.\<close>

definition guarded :: "filter \<Rightarrow> filter" where
  "guarded item = (\<lambda>node doc sch. if contains doc node then item node doc sch else Some (Inr doc))"

section \<open>The embedded-content filter (embedded-content-reducer.js)\<close>

text \<open>
  \<open>isEmbedded\<close>. Reading \<open>schema.figure\<close> of a schema that was left out throws, and so does
  \<open>schema.figure.children.hasOwnProperty\<close> when the \<open>figure\<close> entry has no \<open>children\<close>.
\<close>

definition isEmbedded :: "node \<Rightarrow> schema option \<Rightarrow> error + bool" where
  "isEmbedded node sch =
     (case sch of
        None \<Rightarrow> Inl TypeError
      | Some s \<Rightarrow>
          (case map_of s ''figure'' of
             None \<Rightarrow> Inr False
           | Some figure \<Rightarrow>
               if tagOf node = ''figcaption'' \<or> isPhrasingContent node then Inr False
               else (case children figure of
                       None \<Rightarrow> Inl TypeError
                     | Some c \<Rightarrow> Inr (hasOwnProperty c (tagOf node)))))"

text \<open>
  The loop \<open>while ( wrapper && wrapper.nodeName !== 'P' ) wrapper = wrapper.parentElement\<close>,
  for at most \<open>k\<close> steps up: \<open>Some\<close> of the wrapper found (or of \<open>None\<close> for \<open>null\<close>), and \<open>None\<close>
  when the steps run out.
\<close>

fun findWrapper :: "nat \<Rightarrow> document \<Rightarrow> ref option \<Rightarrow> ref option option" where
  "findWrapper k doc None = Some None"
| "findWrapper 0 doc (Some wrapper) = None"
| "findWrapper (Suc k) doc (Some wrapper) =
     (if isElement (nodeData doc wrapper) \<and> tagOf (nodeData doc wrapper) = ''p''
      then Some (Some wrapper)
      else findWrapper k doc (parentElement doc wrapper))"

text \<open>
  The filter. A chain of parents has fewer nodes than the document has given out
  addresses, so the loop gets \<open>fresh doc + 1\<close> steps. Reading a property of a missing
  \<open>parentNode\<close> throws.
\<close>

definition embeddedContentReducer :: filter where
  "embeddedContentReducer node doc sch =
     (if \<not> isElement (nodeData doc node) then Some (Inr doc)
      else
        (case isEmbedded (nodeData doc node) sch of
           Inl err \<Rightarrow> Some (Inl err)
         | Inr False \<Rightarrow> Some (Inr doc)
         | Inr True \<Rightarrow>
             (case
                (if tagOf (nodeData doc node) = ''img'' then
                   (case parentNode doc node of
                      None \<Rightarrow> Inl TypeError
                    | Some p \<Rightarrow>
                        Inr (if length (childNodesOf doc p) = 1
                                \<and> isElement (nodeData doc p) \<and> tagOf (nodeData doc p) = ''a''
                             then p else node))
                 else Inr node)
              of
                Inl err \<Rightarrow> Some (Inl err)
              | Inr nodeToInsert \<Rightarrow>
                  (case findWrapper (fresh doc + 1) doc (Some nodeToInsert) of
                     None \<Rightarrow> None
                   | Some wrapper \<Rightarrow>
                       (let (doc1, figure) = createElement doc ''figure'' in
                        (case
                           (case wrapper of
                              Some w \<Rightarrow>
                                (case parentNode doc1 w of
                                   None \<Rightarrow> Inl TypeError
                                 | Some parent \<Rightarrow> insertBefore doc1 parent figure (Some w))
                            | None \<Rightarrow>
                                (case parentNode doc1 nodeToInsert of
                                   None \<Rightarrow> Inl TypeError
                                 | Some parent \<Rightarrow>
                                     insertBefore doc1 parent figure (Some nodeToInsert)))
                         of
                           Inl err \<Rightarrow> Some (Inl err)
                         | Inr doc2 \<Rightarrow> Some (appendChild doc2 figure nodeToInsert)))))))"

text \<open>The schema and the input of the repository's test of the filter.\<close>

definition testSchema :: schema where
  "testSchema = [(''figure'', Entry None None (Some [(''img'', Entry None None None None)]) None)]"

definition testInput :: "node list" where
  "testInput =
     [Element ''p'' []
        [Element ''strong'' [] [Text ''test'', Element ''img'' [(''class'', ''one'')] []],
         Element ''img'' [(''class'', ''two'')] []]]"

section \<open>The orchestrator (index.js)\<close>

subsection \<open>isPlain (utils.js)\<close>

text \<open>Every \<open>br\<close> element of the document is replaced by a text node with a line feed.\<close>

fun replaceBRs :: "node list \<Rightarrow> node list" where
  "replaceBRs [] = []"
| "replaceBRs (Element t as cs # ns) =
     (if t = ''br'' then Text [CHR 0x0A] else Element t as (replaceBRs cs)) # replaceBRs ns"
| "replaceBRs (n # ns) = n # replaceBRs ns"

text \<open>\<open>normalize\<close> of the DOM: empty text nodes go, adjacent text nodes become one.\<close>

fun normalize :: "node list \<Rightarrow> node list" where
  "normalize [] = []"
| "normalize (Text v # ns) =
     (if v = [] then normalize ns
      else (case normalize ns of
              Text w # ms \<Rightarrow> Text (v @ w) # ms
            | ms \<Rightarrow> Text v # ms))"
| "normalize (Element t as cs # ns) = Element t as (normalize cs) # normalize ns"
| "normalize (Comment v # ns) = Comment v # normalize ns"

definition isPlain :: "node list \<Rightarrow> bool" where
  "isPlain html =
     (case normalize (replaceBRs html) of
        [n] \<Rightarrow> nodeType n = TEXT_NODE
      | _ \<Rightarrow> False)"

subsection \<open>String functions of JavaScript\<close>

fun indexOfFrom :: "string \<Rightarrow> string \<Rightarrow> int \<Rightarrow> int" where
  "indexOfFrom [] sub i = (if sub = [] then i else - 1)"
| "indexOfFrom (c # cs) sub i =
     (if take (length sub) (c # cs) = sub then i else indexOfFrom cs sub (i + 1))"

definition indexOf :: "string \<Rightarrow> string \<Rightarrow> int" where
  "indexOf s sub = indexOfFrom s sub 0"

text \<open>
  A match of \<open>/<meta[^>]+>/\<close> at the start of a string, and what follows the match: after
  \<open><meta\<close> come all characters up to the next \<open>>\<close>, at least one, and that \<open>>\<close>.
\<close>

definition matchMeta :: "string \<Rightarrow> string option" where
  "matchMeta s =
     (if take 5 s = ''<meta'' then
        (let run = takeWhile (\<lambda>c. c \<noteq> CHR ''>'') (drop 5 s);
             after = dropWhile (\<lambda>c. c \<noteq> CHR ''>'') (drop 5 s)
         in if run \<noteq> [] \<and> after \<noteq> [] then Some (tl after) else None)
      else None)"

text \<open>\<open>HTML.replace( /<meta[^>]+>/, '' )\<close>: the first match is taken out.\<close>

fun stripMeta :: "string \<Rightarrow> string" where
  "stripMeta [] = []"
| "stripMeta (c # cs) =
     (case matchMeta (c # cs) of Some after \<Rightarrow> after | None \<Rightarrow> c # stripMeta cs)"

subsection \<open>rawHandler\<close>

datatype mode = AUTO | INLINE | BLOCKS

text \<open>The options of a call, with the defaults of the source filled in by the caller.\<close>

record options =
  optHTML :: string
  optPlainText :: string
  optMode :: mode
  optTagName :: "string option"
  optCanUserUseUnfilteredHTML :: bool

text \<open>The result: a string on the inline path, a list of blocks otherwise.\<close>

datatype 'b handled = InlineHTML string | Blocks "'b list"

text \<open>
  A raw transformation as \<open>getRawTransformations\<close> returns it: its \<open>isMatch\<close>, its optional
  \<open>transform\<close>, its \<open>blockName\<close> and its optional \<open>schema\<close> (an object of entry objects).
\<close>

record 'b rawTransformation =
  rtIsMatch :: "node \<Rightarrow> bool"
  rtTransform :: "(node \<Rightarrow> 'b) option"
  rtBlockName :: string
  rtSchema :: "objschema option"

text \<open>
  What \<open>rawHandler\<close> gets from outside the sources: the browser's HTML parser and, for
  the run of the sanitizer on a given string, its \<open>querySelector\<close>; the store of the entry
  objects of the registered schemas; the grammar
  parser, the Markdown conversion (showdown behind \<open>convertMarkdown\<close>), the shortcode
  converter, the other filters, \<open>normaliseBlocks\<close>, the registered raw transformations, and
  \<open>createBlock\<close> applied to a block name and the attributes parsed from an element's
  \<open>outerHTML\<close>. A block is a value of type \<open>'b\<close>.
\<close>

record 'b collaborators =
  parseHTML :: "string \<Rightarrow> node list"
  browserQuery :: "string \<Rightarrow> query"
  entries :: estore
  parseWithGrammar :: "string \<Rightarrow> 'b list"
  convertMarkdown :: "string \<Rightarrow> string"
  shortcodeConverter :: "string \<Rightarrow> (string + 'b) list"
  msListConverter :: filter
  listReducer :: filter
  imageCorrector :: filter
  phrasingContentReducer :: filter
  specialCommentConverter :: filter
  blockquoteNormaliser :: filter
  normaliseBlocks :: "string \<Rightarrow> string"
  getRawTransformations :: "'b rawTransformation list"
  createBlock :: "string \<Rightarrow> string \<Rightarrow> 'b"

text \<open>\<open>filterInlineHTML\<close>; the call of \<open>deepFilterHTML\<close> leaves the schema out, and the third
  argument of \<open>removeInvalidHTML\<close> is an object, which is truthy.\<close>

definition filterInlineHTML :: "nat \<Rightarrow> 'b collaborators \<Rightarrow> string \<Rightarrow> (error + string) option" where
  "filterInlineHTML k env html =
     (case deepFilterHTML k (parseHTML env html) [phrasingContentReducer env] None of
        None \<Rightarrow> None
      | Some (Inl err) \<Rightarrow> Some (Inl err)
      | Some (Inr html') \<Rightarrow>
          Some (removeInvalidHTML (browserQuery env html') (parseHTML env) html'
                  getPhrasingContentSchema True))"

text \<open>
  The filter that \<open>rawHandler\<close> puts first when unfiltered HTML is not allowed:
  \<open>node.nodeName === 'iframe' && unwrap( node )\<close>. The \<open>nodeName\<close> of an element of an HTML
  document is in upper case, so the comparison is false and the filter does nothing.
\<close>

definition iframeFilter :: filter where
  "iframeFilter node doc sch = Some (Inr doc)"

text \<open>
  The block of one top-level element of a piece: the first raw transformation that
  matches decides; destructuring the result of \<open>find\<close> throws when none matches.
\<close>

definition blockOf :: "'b collaborators \<Rightarrow> node \<Rightarrow> error + 'b" where
  "blockOf env node =
     (case find (\<lambda>rt. rtIsMatch rt node) (getRawTransformations env) of
        None \<Rightarrow> Inl TypeError
      | Some rt \<Rightarrow>
          (case rtTransform rt of
             Some transform \<Rightarrow> Inr (transform node)
           | None \<Rightarrow> Inr (createBlock env (rtBlockName rt) (serialize False [node]))))"

fun blocksOf :: "'b collaborators \<Rightarrow> node list \<Rightarrow> error + 'b list" where
  "blocksOf env [] = Inr []"
| "blocksOf env (n # ns) =
     (case blockOf env n of
        Inl err \<Rightarrow> Inl err
      | Inr b \<Rightarrow> (case blocksOf env ns of Inl err \<Rightarrow> Inl err | Inr bs \<Rightarrow> Inr (b # bs)))"

text \<open>The body of the \<open>flatMap\<close>, for one piece.\<close>

definition pieceBlocks ::
  "nat \<Rightarrow> 'b collaborators \<Rightarrow> bool \<Rightarrow> string + 'b \<Rightarrow> (error + 'b list) option" where
  "pieceBlocks k env canUserUseUnfilteredHTML piece =
     (case piece of
        Inr block \<Rightarrow> Some (Inr [block])
      | Inl html \<Rightarrow>
          (let blockContentSchema =
                 composed (map rtSchema (getRawTransformations env)) (entries env);
               filters =
                 (if \<not> canUserUseUnfilteredHTML then [iframeFilter] else [])
                 @ [msListConverter env, listReducer env, imageCorrector env,
                    phrasingContentReducer env, specialCommentConverter env,
                    embeddedContentReducer, blockquoteNormaliser env];
               sch = spread blockContentSchema getPhrasingContentSchema
           in
           (case deepFilterHTML k (parseHTML env html) filters (Some blockContentSchema) of
              None \<Rightarrow> None
            | Some (Inl err) \<Rightarrow> Some (Inl err)
            | Some (Inr html1) \<Rightarrow>
                (case removeInvalidHTML (browserQuery env html1) (parseHTML env) html1 sch False of
                   Inl err \<Rightarrow> Some (Inl err)
                 | Inr html2 \<Rightarrow>
                     Some (blocksOf env
                             (filter isElement (parseHTML env (normaliseBlocks env html2))))))))"

fun flatMapPieces ::
  "nat \<Rightarrow> 'b collaborators \<Rightarrow> bool \<Rightarrow> (string + 'b) list \<Rightarrow> (error + 'b list) option" where
  "flatMapPieces k env can [] = Some (Inr [])"
| "flatMapPieces k env can (piece # pieces) =
     (case pieceBlocks k env can piece of
        None \<Rightarrow> None
      | Some (Inl err) \<Rightarrow> Some (Inl err)
      | Some (Inr bs) \<Rightarrow>
          (case flatMapPieces k env can pieces of
             None \<Rightarrow> None
           | Some (Inl err) \<Rightarrow> Some (Inl err)
           | Some (Inr bss) \<Rightarrow> Some (Inr (bs @ bss))))"

definition asInline :: "(error + string) option \<Rightarrow> (error + 'b handled) option" where
  "asInline r = map_option (map_sum id InlineHTML) r"

definition rawHandler :: "nat \<Rightarrow> 'b collaborators \<Rightarrow> options \<Rightarrow> (error + 'b handled) option" where
  "rawHandler k env opts =
     (let html0 = stripMeta (optHTML opts);
          plainText = optPlainText opts
      in
      if optMode opts \<noteq> INLINE \<and> indexOf html0 ''<!-- wp:'' \<noteq> - 1
      then Some (Inr (Blocks (parseWithGrammar env html0)))
      else
        (let markdown = (plainText \<noteq> [] \<and> (html0 = [] \<or> isPlain (parseHTML env html0)));
             html = (if markdown then convertMarkdown env plainText else html0);
             mode' =
               (if markdown \<and> optMode opts = AUTO \<and> indexOf plainText [CHR 0x0A] = - 1
                   \<and> indexOf plainText ''<p>'' \<noteq> 0 \<and> indexOf html ''<p>'' = 0
                then INLINE else optMode opts);
             pieces = shortcodeConverter env html;
             hasShortcodes = (length pieces > 1)
         in
         if mode' = INLINE then asInline (filterInlineHTML k env html)
         else if mode' = AUTO \<and> \<not> hasShortcodes
                 \<and> isInlineContent (parseHTML env html) (optTagName opts)
         then asInline (filterInlineHTML k env html)
         else map_option (map_sum id Blocks)
                (flatMapPieces k env (optCanUserUseUnfilteredHTML opts) pieces)))"

text \<open>Collaborators that find nothing and change nothing, for a concrete environment.\<close>

definition idleFilter :: filter where
  "idleFilter node doc sch = Some (Inr doc)"

definition idle :: "unit collaborators" where
  "idle =
     \<lparr>parseHTML = (\<lambda>_. []), browserQuery = (\<lambda>_. tagQuery), entries = (\<lambda>_. emptyObject),
      parseWithGrammar = (\<lambda>_. []), convertMarkdown = (\<lambda>s. s),
      shortcodeConverter = (\<lambda>s. [Inl s]),
      msListConverter = idleFilter, listReducer = idleFilter, imageCorrector = idleFilter,
      phrasingContentReducer = idleFilter, specialCommentConverter = idleFilter,
      blockquoteNormaliser = idleFilter, normaliseBlocks = (\<lambda>s. s),
      getRawTransformations = [], createBlock = (\<lambda>_ _. ())\<rparr>"

section \<open>Verification\<close>

subsection \<open>Association lists\<close>

lemma omit_map: "omit (map (map_prod id f) xs) k = map (map_prod id f) (omit xs k)"
  by (induction xs) (auto simp: omit_def)

lemma map_of_omit: "map_of (omit s u) t = (if t = u then None else map_of s t)"
  by (induction s) (auto simp: omit_def)

lemma map_fst_omit: "map fst (omit s u) = filter (\<lambda>k. k \<noteq> u) (map fst s)"
  by (induction s) (auto simp: omit_def)

subsection \<open>The phrasing schema\<close>

lemma children_phrasing:
  "t \<in> set nestingTags \<Longrightarrow> \<exists>e. map_of getPhrasingContentSchema t = Some e \<and>
      children e = Some (omit getPhrasingContentSchema t)"
  unfolding getPhrasingContentSchema_def schemaOf_def omit_map
  apply (simp add: nestingTags_def)
  apply (elim disjE)
  apply (simp_all add: phrasingContentSchema_def phrasingStore_def nestingTags_def
      setChildren_def literalStore_def emptyObject_def TEXT_NODE_def omit_def)
  done

lemma childless_phrasing:
  "\<exists>b. map_of getPhrasingContentSchema ''br'' = Some b \<and> children b = None"
  "\<exists>x. map_of getPhrasingContentSchema TEXT_NODE = Some x \<and> children x = None"
  by (simp_all add: getPhrasingContentSchema_def schemaOf_def phrasingContentSchema_def
      phrasingStore_def nestingTags_def setChildren_def literalStore_def emptyObject_def
      TEXT_NODE_def omit_def)

lemma br_text_not_nesting: "''br'' \<notin> set nestingTags" "TEXT_NODE \<notin> set nestingTags"
  by (simp_all add: nestingTags_def TEXT_NODE_def)

lemma schemaAt_chain:
  "chain (t # ts) \<Longrightarrow> map_of s t = map_of getPhrasingContentSchema t \<Longrightarrow>
   schemaAt s (t # ts) = Some (omit getPhrasingContentSchema (last (t # ts)))"
proof (induction ts arbitrary: s t)
  case Nil
  then obtain e where "map_of getPhrasingContentSchema t = Some e"
      "children e = Some (omit getPhrasingContentSchema t)"
    using children_phrasing by auto
  with Nil show ?case by simp
next
  case (Cons u ts)
  then have t: "t \<in> set nestingTags" and tu: "t \<noteq> u" and ch: "chain (u # ts)" by auto
  obtain e where e: "map_of getPhrasingContentSchema t = Some e"
      "children e = Some (omit getPhrasingContentSchema t)"
    using children_phrasing [OF t] by auto
  have "map_of (omit getPhrasingContentSchema t) u = map_of getPhrasingContentSchema u"
    using tu by (simp add: map_of_omit)
  from Cons.IH [OF ch this] e Cons.prems(2) show ?case by simp
qed

lemma schemaAt_append:
  "schemaAt s (p @ q) = (case schemaAt s p of None \<Rightarrow> None | Some c \<Rightarrow> schemaAt c q)"
  by (induction p arbitrary: s) (auto split: option.splits)

lemma chain_nonempty:
  "chain (p @ [t]) \<Longrightarrow> \<exists>u us. p @ [t] = u # us \<and> chain (u # us) \<and> last (u # us) = t"
  by (cases p) auto

lemma chain_last: "chain (p @ [t]) \<Longrightarrow> t \<in> set nestingTags"
  by (induction p rule: chain.induct) (auto split: if_splits)

text \<open>
  C9. Along every chain of nesting tags in which no tag is its own immediate child, at any
  depth, the schema reached under the last tag \<open>t\<close> exists and has an entry for every key
  of the phrasing schema except \<open>t\<close>; nesting \<open>t\<close> directly in \<open>t\<close> is not in the schema; and the
  \<open>br\<close> entry and the text-node entry have no \<open>children\<close>, at that depth and at the top.
\<close>

theorem phrasing_nesting:
  assumes "chain (p @ [t])"
  shows "\<exists>c. schemaAt getPhrasingContentSchema (p @ [t]) = Some c
           \<and> map fst c = filter (\<lambda>k. k \<noteq> t) (map fst getPhrasingContentSchema)
           \<and> schemaAt getPhrasingContentSchema (p @ [t, t]) = None
           \<and> (\<exists>b. map_of c ''br'' = Some b \<and> children b = None)
           \<and> (\<exists>x. map_of c TEXT_NODE = Some x \<and> children x = None)
           \<and> (\<exists>b. map_of getPhrasingContentSchema ''br'' = Some b \<and> children b = None)
           \<and> (\<exists>x. map_of getPhrasingContentSchema TEXT_NODE = Some x \<and> children x = None)"
proof -
  let ?P = getPhrasingContentSchema
  obtain u us where p: "p @ [t] = u # us" "chain (u # us)" "last (u # us) = t"
    using chain_nonempty [OF assms] by auto
  have at: "schemaAt ?P (p @ [t]) = Some (omit ?P t)"
    using schemaAt_chain [OF p(2), of ?P] p by simp
  have tn: "t \<in> set nestingTags"
    using assms by (rule chain_last)
  have "p @ [t, t] = (p @ [t]) @ [t]" by simp
  then have self: "schemaAt ?P (p @ [t, t]) = None"
    using at by (simp only: schemaAt_append) (simp add: map_of_omit)
  have "t \<noteq> ''br''" "t \<noteq> TEXT_NODE" using tn br_text_not_nesting by auto
  then have "map_of (omit ?P t) ''br'' = map_of ?P ''br''"
      "map_of (omit ?P t) TEXT_NODE = map_of ?P TEXT_NODE"
    by (simp_all add: map_of_omit)
  with at self childless_phrasing show ?thesis
    by (simp add: map_fst_omit)
qed

theorem phrasing_nesting_witness:
  "chain ([''strong'', ''em''] @ [''strong''])
   \<and> (\<exists>c. schemaAt getPhrasingContentSchema ([''strong'', ''em''] @ [''strong'']) = Some c
          \<and> map fst c = filter (\<lambda>k. k \<noteq> ''strong'') (map fst getPhrasingContentSchema)
          \<and> schemaAt getPhrasingContentSchema ([''strong'', ''em''] @ [''strong'', ''strong'']) = None)"
proof -
  have h: "chain ([''strong'', ''em''] @ [''strong''])"
    by (simp add: nestingTags_def)
  from phrasing_nesting [OF h] h show ?thesis by blast
qed

subsection \<open>Schema composition\<close>

lemma orEmpty_simps [simp]: "orEmpty None = []" "orEmpty (Some xs) = xs"
  by (simp_all add: orEmpty_def)

lemma set_keys: "set (keys obj) = fst ` set obj"
  by (simp add: keys_def)

lemma map_of_fold_assign:
  "map_of (fold (\<lambda>k acc. case map_of b k of None \<Rightarrow> acc | Some v \<Rightarrow> AList.update k v acc) ks a) k =
     (if k \<in> set ks \<and> map_of b k \<noteq> None then map_of b k else map_of a k)"
  by (induction ks arbitrary: a) (auto simp: update_conv' split: option.splits)

lemma map_of_spread: "map_of (spread a b) k = (case map_of b k of None \<Rightarrow> map_of a k | Some v \<Rightarrow> Some v)"
  unfolding spread_def map_of_fold_assign
  by (auto simp: set_keys split: option.splits dest: map_of_SomeD intro: rev_image_eqI)

lemma dom_spread: "fst ` set (spread a b) = fst ` set a \<union> fst ` set b"
proof -
  have "dom (map_of (spread a b)) = dom (map_of a) \<union> dom (map_of b)"
    by (auto simp: map_of_spread dom_def split: option.splits)
  then show ?thesis by (simp add: dom_map_of_conv_image_fst)
qed

lemma hasOwnProperty_map_of: "hasOwnProperty obj k = (map_of obj k \<noteq> None)"
  by (simp add: hasOwnProperty_def map_of_eq_None_iff)

lemma map_of_schemaOf: "map_of (schemaOf obj st) k = map_option (entry_of st) (map_of obj k)"
  by (induction obj) (auto simp: schemaOf_def)

lemma assignMerged_eq:
  "a \<noteq> e \<Longrightarrow> assignMerged a e st = st(a := mergeObjects (st a) (st e))"
  by (auto simp: assignMerged_def mergeObjects_def Let_def fun_eq_iff)

lemma fold_mergeTag_keys:
  assumes "distinct (map fst sch)"
  shows "fold (mergeTag sch) (keys sch) s = fold contribute sch s"
proof -
  have k: "keys sch = map fst sch"
    using assms by (simp add: keys_def)
  have "\<And>kv. kv \<in> set sch \<Longrightarrow> mergeTag sch (fst kv) = contribute kv"
    using assms by (auto simp: mergeTag_def fun_eq_iff)
  then have "fold (mergeTag sch \<circ> fst) sch s = fold contribute sch s"
    by (intro fold_cong) auto
  then show ?thesis
    by (simp add: k fold_map)
qed

lemma fold_contribute_concat:
  "list_all (\<lambda>t. distinct (map fst (orEmpty t))) ts \<Longrightarrow>
   fold (\<lambda>t s. fold (mergeTag (orEmpty t)) (keys (orEmpty t)) s) ts s
     = fold contribute (concat (map orEmpty ts)) s"
  by (induction ts arbitrary: s) (simp_all add: fold_mergeTag_keys)

lemma getBlockContentSchema_contributions:
  "list_all (\<lambda>t. distinct (map fst (orEmpty t))) ts \<Longrightarrow>
   getBlockContentSchema ts st = fold contribute (concat (map orEmpty ts)) ([], st)"
  by (simp add: getBlockContentSchema_def fold_contribute_concat)

lemma tagged_append: "tagged (xs @ ys) tag = tagged xs tag @ tagged ys tag"
  by (simp add: tagged_def)

lemma map_of_tagged: "map_of cs tag = (case tagged cs tag of [] \<Rightarrow> None | a # _ \<Rightarrow> Some a)"
  by (induction cs) (auto simp: tagged_def)

lemma set_tagged: "set (tagged cs tag) = {e. (tag, e) \<in> set cs}"
  by (force simp: tagged_def)

lemma distinct_values_keys:
  "distinct (map snd cs) \<Longrightarrow> map_of cs k = Some v \<Longrightarrow> map_of cs k' = Some v \<Longrightarrow> k = k'"
proof (induction cs)
  case Nil
  then show ?case by simp
next
  case (Cons kv cs)
  then show ?case
    by (cases kv) (auto split: if_splits dest: map_of_SomeD intro: rev_image_eqI)
qed

text \<open>
  The run of the contributions, one by one: \<open>accu\<close> maps every tag that is not inherited
  to its first contributor's object; that object holds the merge of the stored values of
  all contributors of the tag, in order; every other object is as it was.
\<close>

lemma contributions_invariant:
  assumes "distinct (map snd cs)"
  shows "(\<forall>tag. map_of (fst (fold contribute cs ([], st))) tag
            = (if tag \<in> set objectPrototypeNames then None else map_of cs tag))
       \<and> (\<forall>tag a rest. tag \<notin> set objectPrototypeNames \<longrightarrow> tagged cs tag = a # rest \<longrightarrow>
            snd (fold contribute cs ([], st)) a = foldl mergeObjects (st a) (map st rest))
       \<and> (\<forall>r. (\<forall>tag. tag \<in> set objectPrototypeNames \<or> map_of cs tag \<noteq> Some r) \<longrightarrow>
            snd (fold contribute cs ([], st)) r = st r)"
  using assms
proof (induction cs rule: rev_induct)
  case Nil
  show ?case by (simp add: tagged_def)
next
  case (snoc kv cs)
  obtain t e where kv: "kv = (t, e)" by (cases kv)
  let ?s = "fold contribute cs ([], st)"
  let ?s' = "fold contribute (cs @ [kv]) ([], st)"
  from snoc.prems have d: "distinct (map snd cs)" and e: "e \<notin> snd ` set cs"
    by (auto simp: kv)
  note IH = snoc.IH [OF d]
  have I1: "\<And>tag. map_of (fst ?s) tag
      = (if tag \<in> set objectPrototypeNames then None else map_of cs tag)"
    using IH by blast
  have I2: "\<And>tag a rest. tag \<notin> set objectPrototypeNames \<Longrightarrow> tagged cs tag = a # rest \<Longrightarrow>
      snd ?s a = foldl mergeObjects (st a) (map st rest)"
    using IH by blast
  have I3: "\<And>r. (\<forall>tag. tag \<in> set objectPrototypeNames \<or> map_of cs tag \<noteq> Some r) \<Longrightarrow>
      snd ?s r = st r"
    using IH by blast
  have cur_e: "snd ?s e = st e"
    using e by (intro I3) (auto dest!: map_of_SomeD intro: rev_image_eqI)
  have s': "?s' = contribute (t, e) ?s" by (simp add: kv)
  have mo: "\<And>tag. map_of (cs @ [kv]) tag
      = (case map_of cs tag of Some a \<Rightarrow> Some a | None \<Rightarrow> if tag = t then Some e else None)"
    by (auto simp: kv map_add_def split: option.splits)
  have tg: "\<And>tag. tagged (cs @ [kv]) tag = tagged cs tag @ (if tag = t then [e] else [])"
    by (simp add: tagged_append) (simp add: tagged_def kv)
  have I3': "\<And>r. (\<forall>tag. tag \<in> set objectPrototypeNames \<or> map_of (cs @ [kv]) tag \<noteq> Some r) \<Longrightarrow>
      snd ?s r = st r"
  proof (rule I3, rule allI)
    fix r tag
    assume "\<forall>tag. tag \<in> set objectPrototypeNames \<or> map_of (cs @ [kv]) tag \<noteq> Some r"
    then have "tag \<in> set objectPrototypeNames \<or> map_of (cs @ [kv]) tag \<noteq> Some r" by blast
    then show "tag \<in> set objectPrototypeNames \<or> map_of cs tag \<noteq> Some r"
      by (auto simp: mo simp del: map_of_append split: option.splits)
  qed
  show ?case
  proof (cases "t \<in> set objectPrototypeNames")
    case True
    then have same: "?s' = ?s"
      unfolding s' by (simp add: contribute_def I1)
    show ?thesis
      unfolding same using True I1 I2 I3'
      by (auto simp: mo tg simp del: map_of_append split: option.splits if_splits)
  next
    case False
    show ?thesis
    proof (cases "map_of cs t")
      case None
      then have new: "?s' = (AList.update t e (fst ?s), snd ?s)"
        unfolding s' using False by (simp add: contribute_def I1)
      from None have tn: "tagged cs t = []"
        by (simp add: map_of_tagged split: list.splits)
      show ?thesis
        unfolding new using False None I1 I2 I3' cur_e tn
        by (auto simp: mo tg update_conv' simp del: map_of_append split: option.splits if_splits)
    next
      case (Some a)
      then have "a \<in> snd ` set cs"
        by (auto dest!: map_of_SomeD intro: rev_image_eqI)
      with e have ae: "a \<noteq> e" by auto
      from Some have upd: "?s' = (fst ?s, (snd ?s)(a := mergeObjects (snd ?s a) (st e)))"
        unfolding s' using False by (simp add: contribute_def I1 assignMerged_eq [OF ae] cur_e)
      from Some obtain rest where tn: "tagged cs t = a # rest"
        by (auto simp: map_of_tagged split: list.splits)
      have cur_a: "snd ?s a = foldl mergeObjects (st a) (map st rest)"
        using I2 [OF False tn] .
      have other: "\<And>tag a' rest'. tag \<noteq> t \<Longrightarrow> tagged cs tag = a' # rest' \<Longrightarrow> a' \<noteq> a"
      proof
        fix tag a' rest'
        assume "tag \<noteq> t" "tagged cs tag = a' # rest'" "a' = a"
        then have "map_of cs tag = Some a" by (simp add: map_of_tagged)
        from distinct_values_keys [OF d this Some] \<open>tag \<noteq> t\<close> show False by simp
      qed
      show ?thesis
        unfolding upd
      proof (intro conjI allI impI)
        fix tag
        show "map_of (fst (fst ?s, (snd ?s)(a := mergeObjects (snd ?s a) (st e)))) tag
            = (if tag \<in> set objectPrototypeNames then None else map_of (cs @ [kv]) tag)"
          using I1 Some False by (auto simp: mo simp del: map_of_append split: option.splits)
      next
        fix tag a' rest'
        assume np: "tag \<notin> set objectPrototypeNames" and tg': "tagged (cs @ [kv]) tag = a' # rest'"
        show "snd (fst ?s, (snd ?s)(a := mergeObjects (snd ?s a) (st e))) a'
            = foldl mergeObjects (st a') (map st rest')"
        proof (cases "tag = t")
          case True
          with tg' tn have "a' = a" "rest' = rest @ [e]" by (simp_all add: tg)
          then show ?thesis by (simp add: cur_a)
        next
          case False
          with tg' have t0: "tagged cs tag = a' # rest'" by (simp add: tg)
          from other [OF False t0] I2 [OF np t0] show ?thesis by simp
        qed
      next
        fix r
        assume h: "\<forall>tag. tag \<in> set objectPrototypeNames \<or> map_of (cs @ [kv]) tag \<noteq> Some r"
        then have "r \<noteq> a"
          using Some False by (auto simp: mo simp del: map_of_append split: option.splits dest: spec [of _ t])
        moreover have "snd ?s r = st r"
        proof (rule I3, rule allI)
          fix tag
          from h have "tag \<in> set objectPrototypeNames \<or> map_of (cs @ [kv]) tag \<noteq> Some r" by blast
          then show "tag \<in> set objectPrototypeNames \<or> map_of cs tag \<noteq> Some r"
            by (auto simp: mo simp del: map_of_append split: option.splits)
        qed
        ultimately show "snd (fst ?s, (snd ?s)(a := mergeObjects (snd ?s a) (st e))) r = st r"
          by simp
      qed
    qed
  qed
qed

lemma separate_contributions:
  assumes "separate ts"
  shows "distinct (map snd (concat (map orEmpty ts)))"
    and "list_all (\<lambda>t. distinct (map fst (orEmpty t))) ts"
    and "tag \<in> set objectPrototypeNames \<Longrightarrow> tagged (concat (map orEmpty ts)) tag = []"
proof -
  show "distinct (map snd (concat (map orEmpty ts)))"
    using assms by (simp add: separate_def map_concat comp_def)
  show "list_all (\<lambda>t. distinct (map fst (orEmpty t))) ts"
    using assms by (simp add: separate_def)
  assume "tag \<in> set objectPrototypeNames"
  moreover have "\<forall>kv\<in>set (concat (map orEmpty ts)). fst kv \<notin> set objectPrototypeNames"
    using assms by (auto simp: separate_def list_all_iff)
  ultimately show "tagged (concat (map orEmpty ts)) tag = []"
    by (auto simp: tagged_def filter_empty_conv)
qed

lemma composed_accu:
  assumes "separate ts"
  shows "map_of (fst (getBlockContentSchema ts st)) tag
     = (case contributors ts tag of [] \<Rightarrow> None | a # _ \<Rightarrow> Some a)"
proof -
  note s = separate_contributions [OF assms]
  note inv = contributions_invariant [OF s(1), of st]
  show ?thesis
    using inv s(3) [of tag]
    by (auto simp: getBlockContentSchema_contributions [OF s(2)] contributors_def map_of_tagged)
qed

lemma composed_object:
  assumes "separate ts" and "contributors ts tag = a # rest"
  shows "snd (getBlockContentSchema ts st) a = foldl mergeObjects (st a) (map st rest)"
proof -
  note s = separate_contributions [OF assms(1)]
  note inv = contributions_invariant [OF s(1), of st]
  have "tag \<notin> set objectPrototypeNames"
    using s(3) [of tag] assms(2) by (auto simp: contributors_def)
  with inv assms(2) show ?thesis
    by (simp add: getBlockContentSchema_contributions [OF s(2)] contributors_def)
qed

lemma composed_entry:
  assumes "separate ts"
  shows "map_of (composed ts st) tag
     = (case contributors ts tag of
          [] \<Rightarrow> None
        | a # rest \<Rightarrow> Some (entry_of (snd (getBlockContentSchema ts st)) a))"
  by (simp add: composed_def map_of_schemaOf composed_accu [OF assms] split: list.splits)

lemma attributes_foldl:
  "set (orEmpty (o_attributes (foldl mergeObjects x ys)))
     = set (orEmpty (o_attributes x)) \<union> (\<Union>y\<in>set ys. set (orEmpty (o_attributes y)))"
  by (induction ys arbitrary: x) (auto simp: mergeObjects_def)

lemma require_foldl:
  "set (orEmpty (o_require (foldl mergeObjects x ys)))
     = set (orEmpty (o_require x)) \<union> (\<Union>y\<in>set ys. set (orEmpty (o_require y)))"
  by (induction ys arbitrary: x) (auto simp: mergeObjects_def)

lemma children_mergeObjects:
  "fst ` set (orEmpty (o_children (mergeObjects a e)))
     = fst ` set (orEmpty (o_children a)) \<union> fst ` set (orEmpty (o_children e))"
  by (auto simp: mergeObjects_def dom_spread orEmpty_def split: option.splits)

lemma children_foldl:
  "fst ` set (orEmpty (o_children (foldl mergeObjects x ys)))
     = fst ` set (orEmpty (o_children x)) \<union> (\<Union>y\<in>set ys. fst ` set (orEmpty (o_children y)))"
proof (induction ys arbitrary: x)
  case Nil
  show ?case by simp
next
  case (Cons y ys)
  show ?case
    unfolding foldl_Cons Cons.IH children_mergeObjects by auto
qed

lemma hasOwnProperty_composed:
  "separate ts \<Longrightarrow> hasOwnProperty (composed ts st) tag = (contributors ts tag \<noteq> [])"
  by (simp add: hasOwnProperty_map_of composed_entry split: list.splits)

lemma attributesOf_composed:
  assumes "separate ts"
  shows "attributesOf (composed ts st) tag
     = (\<Union>e\<in>set (contributors ts tag). set (orEmpty (o_attributes (st e))))"
proof (cases "contributors ts tag")
  case Nil
  then show ?thesis by (simp add: attributesOf_def composed_entry [OF assms])
next
  case (Cons a rest)
  then show ?thesis
    by (simp add: attributesOf_def composed_entry [OF assms] composed_object [OF assms Cons]
        attributes_foldl)
qed

lemma requireOf_composed:
  assumes "separate ts"
  shows "requireOf (composed ts st) tag
     = (\<Union>e\<in>set (contributors ts tag). set (orEmpty (o_require (st e))))"
proof (cases "contributors ts tag")
  case Nil
  then show ?thesis by (simp add: requireOf_def composed_entry [OF assms])
next
  case (Cons a rest)
  then show ?thesis
    by (simp add: requireOf_def composed_entry [OF assms] composed_object [OF assms Cons]
        require_foldl)
qed

lemma fst_children_entry_of:
  "set (map fst (orEmpty (children (entry_of st a)))) = fst ` set (orEmpty (o_children (st a)))"
  by (cases "o_children (st a)") (auto simp: image_image)

lemma childTagsOf_composed:
  assumes "separate ts"
  shows "childTagsOf (composed ts st) tag
     = (\<Union>e\<in>set (contributors ts tag). fst ` set (orEmpty (o_children (st e))))"
proof (cases "contributors ts tag")
  case Nil
  then show ?thesis by (simp add: childTagsOf_def composed_entry [OF assms])
next
  case (Cons a rest)
  then show ?thesis
    unfolding childTagsOf_def composed_entry [OF assms]
    by (simp only: list.case option.case fst_children_entry_of composed_object [OF assms Cons]
        children_foldl) auto
qed

lemma set_contributors:
  "set (contributors ts tag) = {e. \<exists>t\<in>set ts. (tag, e) \<in> set (orEmpty t)}"
  by (auto simp: contributors_def set_tagged)

lemma distinct_concat_mset:
  assumes "mset xs = mset ys"
  shows "distinct (concat (map f xs)) = distinct (concat (map f ys))"
proof -
  have "mset (concat (map f xs)) = mset (concat (map f ys))"
    using assms
    by (metis (no_types) mset_concat mset_map sum_mset_sum_list map_map)
  then show ?thesis
    by (rule mset_eq_imp_distinct_iff)
qed

lemma separate_mset: "mset ts = mset ts' \<Longrightarrow> separate ts = separate ts'"
  unfolding separate_def list_all_iff
  using distinct_concat_mset [of ts ts' "\<lambda>t. map snd (orEmpty t)"] mset_eq_setD [of ts ts']
  by simp

text \<open>
  C2, as amended. When no entry object is shared (each is under one tag of one
  descriptor) and no tag is a name that objects inherit, then for every list of transform
  descriptors and every permutation of it the composed schema has the same tags and, for
  every tag, the same set of allowed attributes, the same set of required selectors and
  the same set of child tags.
\<close>

theorem composition_order_independent:
  assumes "mset ts = mset ts'" and "separate ts"
  shows "hasOwnProperty (composed ts st) tag = hasOwnProperty (composed ts' st) tag
       \<and> attributesOf (composed ts st) tag = attributesOf (composed ts' st) tag
       \<and> requireOf (composed ts st) tag = requireOf (composed ts' st) tag
       \<and> childTagsOf (composed ts st) tag = childTagsOf (composed ts' st) tag"
proof -
  have s': "separate ts'"
    using separate_mset [OF assms(1)] assms(2) by simp
  from assms(1) have "set ts = set ts'" by (rule mset_eq_setD)
  then have c: "set (contributors ts tag) = set (contributors ts' tag)"
    by (simp add: set_contributors)
  then have ne: "(contributors ts tag \<noteq> []) = (contributors ts' tag \<noteq> [])"
    by (metis set_empty)
  show ?thesis
    unfolding hasOwnProperty_composed [OF assms(2)] hasOwnProperty_composed [OF s']
      attributesOf_composed [OF assms(2)] attributesOf_composed [OF s']
      requireOf_composed [OF assms(2)] requireOf_composed [OF s']
      childTagsOf_composed [OF assms(2)] childTagsOf_composed [OF s'] c
    using ne by (intro conjI refl)
qed

lemmas example_simps =
  getBlockContentSchema_def mergeTag_def contribute_def assignMerged_def keys_def spread_def
  exampleStore_def emptyObject_def objectPrototypeNames_def Let_def composed_def schemaOf_def

lemma separate_figures:
  "separate [Some [(''figure'', 0)], Some [(''figure'', 2)]]"
  "separate [Some [(''figure'', 2)], Some [(''figure'', 0)]]"
  by (simp_all add: separate_def objectPrototypeNames_def)

theorem composition_order_independent_witness:
  "mset [Some [(''figure'', 0)], Some [(''figure'', 2)]]
     = mset [Some [(''figure'', 2)], Some [(''figure'', 0)]]
   \<and> separate [Some [(''figure'', 0)], Some [(''figure'', 2)]]
   \<and> childTagsOf (composed [Some [(''figure'', 0)], Some [(''figure'', 2)]] exampleStore) ''figure''
     = childTagsOf (composed [Some [(''figure'', 2)], Some [(''figure'', 0)]] exampleStore) ''figure''"
proof -
  have h: "mset [Some [(''figure'', 0::nat)], Some [(''figure'', 2)]]
     = mset [Some [(''figure'', 2)], Some [(''figure'', 0)]]"
    by simp
  from composition_order_independent [OF h separate_figures(1), of exampleStore "''figure''"]
    h separate_figures(1)
  show ?thesis by simp
qed

lemma composed_figures:
  "map_option attributes
     (childEntry (composed [Some [(''figure'', 0)], Some [(''figure'', 2)]] exampleStore)
        ''figure'' ''img'') = Some (Some [''alt''])"
  "map_option attributes
     (childEntry (composed [Some [(''figure'', 2)], Some [(''figure'', 0)]] exampleStore)
        ''figure'' ''img'') = Some (Some [''src''])"
  "map_option classes
     (map_of (composed [Some [(''figure'', 0)], Some [(''figure'', 2)]] exampleStore) ''figure'')
     = Some (Some [''one''])"
  by (simp_all add: example_simps childEntry_def)

text \<open>
  C2 as stated fails: two descriptors, with no shared object, whose \<open>figure\<close> entries both
  have a child \<open>img\<close>, with different attributes. The composed \<open>img\<close> entry is the one of the
  descriptor that comes last.
\<close>

theorem composition_order_counterexample:
  "mset [Some [(''figure'', 0)], Some [(''figure'', 2)]]
     = mset [Some [(''figure'', 2)], Some [(''figure'', 0)]]
   \<and> map_option attributes
        (childEntry (composed [Some [(''figure'', 0)], Some [(''figure'', 2)]] exampleStore)
           ''figure'' ''img'') = Some (Some [''alt''])
   \<and> map_option attributes
        (childEntry (composed [Some [(''figure'', 2)], Some [(''figure'', 0)]] exampleStore)
           ''figure'' ''img'') = Some (Some [''src''])"
  by (simp add: composed_figures)

text \<open>
  Why the amended claims ask for unshared entry objects: the entry object at 4 is under
  \<open>p\<close> and under \<open>div\<close> in one descriptor, and another descriptor has a \<open>p\<close> entry. When the
  shared object comes first, the assignment for \<open>p\<close> changes what \<open>div\<close> allows; when it comes
  second, it does not. And the composed list of \<open>p\<close> is not read from \<open>p\<close> alone once the
  object is assigned to again.
\<close>

lemma shared_entry_depends_on_order:
  "mset [Some [(''p'', 4), (''div'', 4)], Some [(''p'', 5)]]
     = mset [Some [(''p'', 5)], Some [(''p'', 4), (''div'', 4)]]
   \<and> attributesOf (composed [Some [(''p'', 4), (''div'', 4)], Some [(''p'', 5)]] exampleStore) ''div''
       = {''a'', ''f''}
   \<and> attributesOf (composed [Some [(''p'', 5)], Some [(''p'', 4), (''div'', 4)]] exampleStore) ''div''
       = {''a''}"
  by (simp add: example_simps attributesOf_def)

lemma shared_entry_not_concatenation:
  "map_option attributes
     (map_of (composed [Some [(''p'', 4), (''div'', 4)], Some [(''p'', 5), (''div'', 6)]] exampleStore)
        ''p'')
     = Some (Some [''a'', ''f'', ''c''])"
  by (simp add: example_simps)

text \<open>
  Why the amended claims leave out inherited names: \<open>accu[ 'constructor' ]\<close> is the inherited
  function, which is truthy, so a contributor's \<open>constructor\<close> entry never gets into \<open>accu\<close>.
\<close>

lemma inherited_tag_dropped:
  "\<not> hasOwnProperty (composed [Some [(''constructor'', 6)]] exampleStore) ''constructor''"
  by (simp add: example_simps hasOwnProperty_def)





subsection \<open>isInlineContent\<close>

lemma phrasing_keys:
  "map fst getPhrasingContentSchema =
     [''strong'', ''em'', ''del'', ''ins'', ''a'', ''code'', ''abbr'', ''sub'', ''sup'', ''br'', ''3'']"
  by (simp add: getPhrasingContentSchema_def schemaOf_def phrasingContentSchema_def TEXT_NODE_def)

lemma withPrevious_adjacent:
  "(Some b1, b2) \<in> set (withPrevious p (xs @ b1 # b2 # ys))"
  by (induction xs arbitrary: p) auto

text \<open>
  C6, as amended. For every input in which some \<open>br\<close> element that is a child of \<open>body\<close> is
  immediately preceded by another \<open>br\<close> element, \<open>isInlineContent\<close> is false for every context
  tag; in particular for \<open>a<br><br>b\<close>, whose parsed child nodes are a text node, two \<open>br\<close>
  elements and a text node.
\<close>

theorem double_br_not_inline:
  assumes "isBR b1" and "isBR b2"
  shows "\<not> isInlineContent (xs @ b1 # b2 # ys) tagName"
proof -
  have "isDoubleBR (Some b1, b2)" "isElement (snd (Some b1, b2))"
    using assms by (simp_all add: isDoubleBR_def isBR_def)
  with withPrevious_adjacent [of b1 b2 None xs ys]
  have "list_ex isDoubleBR
          (filter (\<lambda>pn. isElement (snd pn)) (withPrevious None (xs @ b1 # b2 # ys)))"
    unfolding list_ex_iff by (intro bexI [of _ "(Some b1, b2)"]) auto
  then show ?thesis
    by (simp add: isInlineContent_def Let_def)
qed

theorem double_br_not_inline_witness:
  "isBR (Element ''br'' [] []) \<and>
   \<not> isInlineContent ([Text ''a''] @ Element ''br'' [] [] # Element ''br'' [] [] # [Text ''b'']) None"
proof -
  have h: "isBR (Element ''br'' [] [])" by (simp add: isBR_def)
  from double_br_not_inline [OF h h] h show ?thesis by blast
qed

text \<open>
  C6 as stated fails below the top level: \<open>isDoubleBR\<close> is asked of the children of \<open>body\<close>
  only. For \<open><strong>a<br><br>b</strong>\<close> the function answers true.
\<close>

theorem nested_double_br_counterexample:
  "isBR (Element ''br'' [] []) \<and>
   isInlineContent
     [Element ''strong'' [] [Text ''a'', Element ''br'' [] [], Element ''br'' [] [], Text ''b'']] None"
  by (simp add: isInlineContent_def isDoubleBR_def isBR_def elementChildren_def isInline_def
      isPhrasingContent_def hasOwnProperty_def phrasing_keys)

subsection \<open>cleanNodeList\<close>

text \<open>
  C5. The claim says that the children of an element whose entry has no \<open>children\<close> are
  removed and the element kept. The code calls \<open>node.removeNode\<close>, which no DOM node has:
  for the schema \<open>{ p: {} }\<close> and the input \<open><p>a</p>\<close> the sanitizer throws.
\<close>

theorem childless_entry_throws:
  "cleanNodeList q up i [Element ''p'' [] [Text ''a'']] [(''p'', Entry None None None None)] inline
     = Inl TypeError"
  by (simp add: hasOwnProperty_def lookupEntry_def)

lemma lookupEntry_own: "map_of sch t = Some e \<Longrightarrow> lookupEntry sch t = Some e"
  by (simp add: lookupEntry_def)

lemma hasOwnProperty_own: "map_of sch t = Some e \<Longrightarrow> hasOwnProperty sch t"
  by (auto simp: hasOwnProperty_def dest: map_of_SomeD intro: rev_image_eqI)

text \<open>
  C4, as amended. \<open>q\<close> stands for the answers of the browser's \<open>querySelector\<close>. An element
  whose entry declares \<open>children\<close> and a non-empty \<open>require\<close> list, for which
  \<open>node.querySelector( require.join( ',' ) )\<close> (asked once the attributes are stripped) finds
  no element, and which is not empty in the sense of \<open>isEmpty\<close>, is unwrapped: what stands
  in its place is the result of cleaning its children against the current schema, in
  order, followed by the result for the nodes after it.
\<close>

theorem require_failure_unwraps:
  assumes "map_of sch t = Some e" and "children e = Some c"
    and "orEmpty (require e) \<noteq> []"
    and "q (i # up) (joinComma (orEmpty (require e)))
           (Element t (stripClasses (orEmpty (classes e))
                         (stripAttributes (orEmpty (attributes e)) as)) cs) = Inr False"
    and "\<not> isEmpty (Element t as cs)"
  shows "cleanNodeList q up i (Element t as cs # rest) sch inline =
     (case cleanNodeList q (i # up) 0 cs sch inline of
        Inl err \<Rightarrow> Inl err
      | Inr cs' \<Rightarrow>
          (case cleanNodeList q up (Suc i) rest sch inline of
             Inl err \<Rightarrow> Inl err
           | Inr outs \<Rightarrow> Inr (cs' @ outs)))"
proof -
  from assms(5) have cs: "cs \<noteq> []" by auto
  note own = lookupEntry_own [OF assms(1)] hasOwnProperty_own [OF assms(1)]
  with assms cs show ?thesis
    by (simp add: unwrap_def Let_def split: sum.splits)
qed

theorem require_failure_unwraps_witness:
  "map_of figureSchema ''figure''
     = Some (Entry None None (Some [(''img'', Entry None None None None)]) (Some [''img'']))
   \<and> tagQuery [0] ''img'' (Element ''figure'' [] [Text ''x'', Element ''br'' [] []]) = Inr False
   \<and> \<not> isEmpty (Element ''figure'' [] [Text ''x'', Element ''br'' [] []])
   \<and> cleanNodeList tagQuery [] 0 [Element ''figure'' [] [Text ''x'', Element ''br'' [] []]]
       figureSchema False
       = Inr [Text ''x'', Element ''br'' [] []]"
proof -
  let ?e = "Entry None None (Some [(''img'', Entry None None None None)]) (Some [''img''])"
  have h1: "map_of figureSchema ''figure'' = Some ?e"
    by (simp add: figureSchema_def)
  have h2: "children ?e = Some [(''img'', Entry None None None None)]" by simp
  have h3: "orEmpty (require ?e) \<noteq> []" by simp
  have q: "tagQuery [0] ''img'' (Element ''figure'' [] [Text ''x'', Element ''br'' [] []])
      = Inr False"
    by (simp add: tagQuery_def)
  have h4: "tagQuery [0] (joinComma (orEmpty (require ?e)))
      (Element ''figure'' (stripClasses (orEmpty (classes ?e))
                             (stripAttributes (orEmpty (attributes ?e)) []))
         [Text ''x'', Element ''br'' [] []]) = Inr False"
    by (simp add: tagQuery_def stripClasses_def stripAttributes_def)
  have h5: "\<not> isEmpty (Element ''figure'' [] [Text ''x'', Element ''br'' [] []])"
    by (simp add: trim_def isWhiteSpace_def)
  have inner: "cleanNodeList tagQuery [0] 0 [Text ''x'', Element ''br'' [] []] figureSchema False
      = Inr [Text ''x'', Element ''br'' [] []]"
    by (simp add: figureSchema_def hasOwnProperty_def lookupEntry_def TEXT_NODE_def
        stripClasses_def stripAttributes_def)
  from require_failure_unwraps [where q = tagQuery and i = 0 and up = "[]" and rest = "[]"
      and inline = False, OF h1 h2 h3 h4 h5] h1 q h5 inner
  show ?thesis by simp
qed

text \<open>
  C4 as stated fails for an element that \<open>isEmpty\<close> holds of: it is removed with its
  descendants before the \<open>require\<close> list is looked at. The \<open>br\<close> child, which the current
  schema allows, is not in the output.
\<close>

theorem require_failure_counterexample:
  "require (Entry None None (Some [(''img'', Entry None None None None)]) (Some [''img'']))
     = Some [''img'']
   \<and> map_of figureSchema ''figure''
     = Some (Entry None None (Some [(''img'', Entry None None None None)]) (Some [''img'']))
   \<and> tagQuery [0] ''img'' (Element ''figure'' [] [Element ''br'' [] []]) = Inr False
   \<and> cleanNodeList tagQuery [0] 0 [Element ''br'' [] []] figureSchema False
       = Inr [Element ''br'' [] []]
   \<and> cleanNodeList tagQuery [] 0 [Element ''figure'' [] [Element ''br'' [] []]] figureSchema False
       = Inr []"
  by (simp add: figureSchema_def hasOwnProperty_def lookupEntry_def TEXT_NODE_def
      stripClasses_def stripAttributes_def remove_def tagQuery_def)

subsection \<open>The filter engine\<close>

lemma applyFilters_guarded:
  "applyFilters (map guarded filters) node doc sch = applyFilters filters node doc sch"
  by (induction filters arbitrary: doc) (auto simp: guarded_def split: option.splits sum.splits)

lemma applyFilters_detached:
  "\<not> contains doc node \<Longrightarrow> applyFilters filters node doc sch = Some (Inr doc)"
  by (induction filters) auto

text \<open>
  C8. The engine calls a filter on a node only while the document contains the node:
  replacing every filter by one that does nothing on a node outside the document changes
  no result of \<open>deepFilterNodeList\<close>, whatever the filters do (or throw) on such nodes. And
  once the node is outside the document, the remaining applications for it are left out:
  they return the document as it is, and no error.
\<close>

theorem filters_only_on_contained:
  "deepFilterNodeList k nodeList (map guarded filters) doc sch
     = deepFilterNodeList k nodeList filters doc sch
   \<and> (\<not> contains doc node \<longrightarrow> applyFilters filters node doc sch = Some (Inr doc))"
proof
  show "deepFilterNodeList k nodeList (map guarded filters) doc sch
     = deepFilterNodeList k nodeList filters doc sch"
  proof (induction k nodeList filters doc sch rule: deepFilterNodeList.induct)
    case (3 k node nodeList filters doc sch)
    then show ?case
      by (simp add: applyFilters_guarded split: option.splits sum.splits)
  qed simp_all
  show "\<not> contains doc node \<longrightarrow> applyFilters filters node doc sch = Some (Inr doc)"
    by (simp add: applyFilters_detached)
qed

theorem filters_only_on_contained_witness:
  "\<not> contains createHTMLDocument 5
   \<and> applyFilters [\<lambda>node doc sch. Some (Inl TypeError)] 5 createHTMLDocument None
       = Some (Inr createHTMLDocument)"
proof -
  have h: "\<not> contains createHTMLDocument 5"
    by (simp add: contains_def createHTMLDocument_def body_def)
  from filters_only_on_contained [of 0 "[]" "[\<lambda>node doc sch. Some (Inl TypeError)]"
      createHTMLDocument None 5] h
  show ?thesis by blast
qed

subsection \<open>The embedded-content filter\<close>

lemma deepFilterNodeList_more:
  "deepFilterNodeList k nodeList filters doc sch = Some r \<Longrightarrow>
   deepFilterNodeList (k + j) nodeList filters doc sch = Some r"
proof (induction k nodeList filters doc sch arbitrary: r rule: deepFilterNodeList.induct)
  case (1 k filters doc sch)
  then show ?case by simp
next
  case (2 node nodeList filters doc sch)
  then show ?case by simp
next
  case (3 k node nodeList filters doc sch)
  from "3.prems" show ?case
    using "3.IH" by (auto split: option.splits sum.splits)
qed

lemma deepFilterHTML_more:
  "deepFilterHTML k html filters sch = Some r \<Longrightarrow> deepFilterHTML (k + j) html filters sch = Some r"
  unfolding deepFilterHTML_def Let_def
  by (auto split: option.splits sum.splits dest: deepFilterNodeList_more [where j = j])

lemma test_promoted:
  \<open>deepFilterHTML 3 testInput [embeddedContentReducer] (Some testSchema)
     = Some (Inr ''<figure><img class="one"></figure><figure><img class="two"></figure><p><strong>test</strong></p>'')\<close>
  by (simp add: deepFilterHTML_def testInput_def testSchema_def createHTMLDocument_def body_def
      embeddedContentReducer_def isEmbedded_def isPhrasingContent_def hasOwnProperty_def
      phrasing_keys contains_def createElement_def insertBefore_def appendChild_def detach_def
      parentElement_def innerHTML_def voidElements_def rawTextElements_def
      serializeAttribute_def Let_def eval_nat_numeral)

text \<open>
  C7. \<open>testInput\<close> is the tree of \<open><p><strong>test<img class="one"></strong><img class="two"></p>\<close>
  (it serializes to that string), and \<open>testSchema\<close> is the schema whose \<open>figure\<close> entry allows
  a child \<open>img\<close>. With the embedded-content filter, \<open>deepFilterHTML\<close> returns the string of
  the claim: a \<open>figure\<close> for each image, before the paragraph, in the order of the images,
  and the paragraph without them. The recursion returns for every depth bound from 3 on.
\<close>

theorem embedded_content_promoted:
  \<open>serialize False testInput = ''<p><strong>test<img class="one"></strong><img class="two"></p>''
   \<and> deepFilterHTML (3 + j) testInput [embeddedContentReducer] (Some testSchema)
       = Some (Inr ''<figure><img class="one"></figure><figure><img class="two"></figure><p><strong>test</strong></p>'')\<close>
proof
  show \<open>serialize False testInput = ''<p><strong>test<img class="one"></strong><img class="two"></p>''\<close>
    by (simp add: testInput_def voidElements_def rawTextElements_def serializeAttribute_def)
  show \<open>deepFilterHTML (3 + j) testInput [embeddedContentReducer] (Some testSchema)
       = Some (Inr ''<figure><img class="one"></figure><figure><img class="two"></figure><p><strong>test</strong></p>'')\<close>
    using test_promoted by (rule deepFilterHTML_more)
qed

subsection \<open>rawHandler\<close>

lemma filterInlineHTML_empty:
  "parseHTML env [] = [] \<Longrightarrow> filterInlineHTML k env [] = Some (Inr [])"
  by (simp add: filterInlineHTML_def deepFilterHTML_def innerHTML_def createHTMLDocument_def
      removeInvalidHTML_def)

text \<open>
  C10. The empty string parses to no nodes, and for no nodes \<open>isInlineContent\<close> is true for
  every context tag, also for none. So when the HTML that reaches the choice of the mode
  is empty (the HTML of the call is empty once the \<open>meta\<close> tag is taken out, and there is no
  plain text or its conversion is empty), the mode is \<open>AUTO\<close> and the shortcode converter
  returns at most one piece for the empty string, \<open>rawHandler\<close> takes the inline path and
  returns a string (the empty one), for every bound on the depth of the filter engine.
\<close>

theorem empty_html_is_inline:
  "isInlineContent [] tagName
   \<and> (parseHTML env [] = [] \<and> length (shortcodeConverter env []) \<le> 1
        \<and> stripMeta (optHTML opts) = []
        \<and> (optPlainText opts = [] \<or> convertMarkdown env (optPlainText opts) = [])
        \<and> optMode opts = AUTO
      \<longrightarrow> rawHandler k env opts = Some (Inr (InlineHTML [])))"
proof (intro conjI impI)
  show "isInlineContent [] tagName"
    by (simp add: isInlineContent_def)
next
  assume h: "parseHTML env [] = [] \<and> length (shortcodeConverter env []) \<le> 1
        \<and> stripMeta (optHTML opts) = []
        \<and> (optPlainText opts = [] \<or> convertMarkdown env (optPlainText opts) = [])
        \<and> optMode opts = AUTO"
  then have n: "\<not> 1 < length (shortcodeConverter env [])" by simp
  from h have "filterInlineHTML k env [] = Some (Inr [])"
    by (simp add: filterInlineHTML_empty)
  with h n show "rawHandler k env opts = Some (Inr (InlineHTML []))"
    by (auto simp: rawHandler_def indexOf_def isInlineContent_def asInline_def Let_def)
qed

theorem empty_html_is_inline_witness:
  "parseHTML idle [] = [] \<and> length (shortcodeConverter idle []) \<le> 1
   \<and> stripMeta [] = []
   \<and> rawHandler 0 idle
        \<lparr>optHTML = [], optPlainText = [], optMode = AUTO, optTagName = Some ''ul'',
         optCanUserUseUnfilteredHTML = False\<rparr>
       = Some (Inr (InlineHTML []))"
proof -
  let ?opts = "\<lparr>optHTML = [], optPlainText = [], optMode = AUTO, optTagName = Some ''ul'',
         optCanUserUseUnfilteredHTML = False\<rparr>"
  have h: "parseHTML idle [] = [] \<and> length (shortcodeConverter idle []) \<le> 1
      \<and> stripMeta (optHTML ?opts) = []
      \<and> (optPlainText ?opts = [] \<or> convertMarkdown idle (optPlainText ?opts) = [])
      \<and> optMode ?opts = AUTO"
    by (simp add: idle_def)
  from empty_html_is_inline [of None idle ?opts 0] h show ?thesis by simp
qed

subsection \<open>Sanitizing twice\<close>

lemma splitSpace_nonempty [simp]: "splitSpace s \<noteq> []"
  by (induction s) (auto split: list.splits)














lemma strong_children_keys:
  "map fst (omit getPhrasingContentSchema ''strong'') =
     [''em'', ''del'', ''ins'', ''a'', ''code'', ''abbr'', ''sub'', ''sup'', ''br'', ''3'']"
  by (simp add: map_fst_omit phrasing_keys)


lemmas clean_simps =
  hasOwnProperty_def lookupEntry_def phrasing_keys strong_children_keys
  stripClasses_def stripAttributes_def unwrap_def remove_def insertAfter_def
  trim_def isWhiteSpace_def

lemmas serialize_simps = voidElements_def rawTextElements_def serializeAttribute_def



text \<open>
  Why the amended claim is about block mode. In inline mode, with a schema that allows
  text nodes only, \<open><p>a</p><div>b</div>\<close> is sanitized to \<open>a<br>b\<close>: a line break is put in
  where the paragraph is unwrapped. That result parses back to its tree and is settled,
  yet the schema does not allow the \<open>br\<close>, and the second sanitization returns \<open>ab\<close>.
\<close>

lemma inline_mode_not_idempotent:
  \<open>cleanNodeList tagQuery [] 0 (parseKnown ''<p>a</p><div>b</div>'') textSchema True
     = Inr [Text ''a'', Element ''br'' [] [], Text ''b'']
   \<and> parseKnown (serialize False [Text ''a'', Element ''br'' [] [], Text ''b''])
       = [Text ''a'', Element ''br'' [] [], Text ''b'']
   \<and> settled tagQuery [] 0 [Text ''a'', Element ''br'' [] [], Text ''b''] textSchema
   \<and> removeInvalidHTML tagQuery parseKnown ''<p>a</p><div>b</div>'' textSchema True
       = Inr ''a<br>b''
   \<and> removeInvalidHTML tagQuery parseKnown ''a<br>b'' textSchema True = Inr ''ab''\<close>
  by (simp add: removeInvalidHTML_def parseKnown_def textSchema_def TEXT_NODE_def clean_simps
      isPhrasingContent_def serialize_simps objectPrototypeNames_def)

end
